theory Spec2Isabelle
  imports Main "HOL-Library.Word"
begin

unbundle bit_operations_syntax

section \<open>Strings\<close>

text \<open>
  A Go string is a sequence of bytes; it is modelled as a \<^typ>\<open>string\<close>. Two of the
  library functions that the builder calls, \<open>strings.ToLower\<close> and \<open>strconv.Quote\<close>,
  consult the tables of package \<open>unicode\<close> (the case of a letter, whether a rune is
  printable) as soon as the string has a byte outside ASCII. The tables are no part of the
  builder: what the two functions return on such a string is taken as a parameter, the
  record \<open>unicode\<close>. On ASCII strings they are defined here.
\<close>

record unicode =
  Map_ToLower :: "string \<Rightarrow> string"
  Quote_runes :: "string \<Rightarrow> string"

definition is_ascii :: "char \<Rightarrow> bool" where
  "is_ascii c = ((of_char c :: nat) < 128)"

definition lower_char :: "char \<Rightarrow> char" where
  "lower_char c =
     (if 65 \<le> (of_char c :: nat) \<and> (of_char c :: nat) \<le> 90
      then char_of ((of_char c :: nat) + 32) else c)"

text \<open>
  \<open>strings.ToLower\<close>: on a string of ASCII bytes, each of \<open>A\<close> to \<open>Z\<close> becomes
  its lower-case letter; on any other string, \<open>strings.Map(unicode.ToLower, s)\<close>.
\<close>

definition ToLower :: "unicode \<Rightarrow> string \<Rightarrow> string" where
  "ToLower u s = (if list_all is_ascii s then map lower_char s else Map_ToLower u s)"

text \<open>
  \<open>strings.TrimSpace\<close> takes off the ends of the string every rune that
  \<open>unicode.IsSpace\<close> accepts: tab, line feed, vertical tab, form feed, carriage
  return, space, U+0085, U+00A0, U+1680, U+2000 to U+200A, U+2028, U+2029, U+202F, U+205F and
  U+3000. \<open>space_runes\<close> lists them in UTF-8. A rune is taken off the front when its
  bytes are there, and off the end likewise (\<open>trim_front\<close> on the reversed string).
\<close>

definition space_runes :: "string list" where
  "space_runes =
     [[CHR 0x09], [CHR 0x0A], [CHR 0x0B], [CHR 0x0C], [CHR 0x0D], [CHR 0x20],
      [CHR 0xC2, CHR 0x85], [CHR 0xC2, CHR 0xA0], [CHR 0xE1, CHR 0x9A, CHR 0x80],
      [CHR 0xE2, CHR 0x80, CHR 0x80], [CHR 0xE2, CHR 0x80, CHR 0x81],
      [CHR 0xE2, CHR 0x80, CHR 0x82], [CHR 0xE2, CHR 0x80, CHR 0x83],
      [CHR 0xE2, CHR 0x80, CHR 0x84], [CHR 0xE2, CHR 0x80, CHR 0x85],
      [CHR 0xE2, CHR 0x80, CHR 0x86], [CHR 0xE2, CHR 0x80, CHR 0x87],
      [CHR 0xE2, CHR 0x80, CHR 0x88], [CHR 0xE2, CHR 0x80, CHR 0x89],
      [CHR 0xE2, CHR 0x80, CHR 0x8A], [CHR 0xE2, CHR 0x80, CHR 0xA8],
      [CHR 0xE2, CHR 0x80, CHR 0xA9], [CHR 0xE2, CHR 0x80, CHR 0xAF],
      [CHR 0xE2, CHR 0x81, CHR 0x9F], [CHR 0xE3, CHR 0x80, CHR 0x80]]"

fun trim_front :: "string list \<Rightarrow> string \<Rightarrow> string" where
  "trim_front qs [] = []"
| "trim_front qs (c # cs) =
     (case find (\<lambda>q. q \<noteq> [] \<and> take (length q) (c # cs) = q) qs of
        None \<Rightarrow> c # cs
      | Some q \<Rightarrow> trim_front qs (drop (length q - 1) cs))"

definition TrimSpace :: "string \<Rightarrow> string" where
  "TrimSpace s = rev (trim_front (map rev space_runes) (rev (trim_front space_runes s)))"

definition Contains :: "string \<Rightarrow> char \<Rightarrow> bool" where
  "Contains s c = (c \<in> set s)"

text \<open>\<open>strings.Split(s, sep)\<close> for a separator of one byte: one more part than separators.\<close>

fun Split :: "string \<Rightarrow> char \<Rightarrow> string list" where
  "Split [] sep = [[]]"
| "Split (x # xs) sep =
     (if x = sep then [] # Split xs sep
      else (case Split xs sep of
              [] \<Rightarrow> [[x]]
            | p # ps \<Rightarrow> (x # p) # ps))"

text \<open>\<open>strings.Replace(s, old, "", -1)\<close> for \<open>old\<close> of one byte: every occurrence goes.\<close>

definition Remove_all :: "string \<Rightarrow> char \<Rightarrow> string" where
  "Remove_all s c = filter (\<lambda>x. x \<noteq> c) s"

fun Join_with :: "string \<Rightarrow> string list \<Rightarrow> string" where
  "Join_with sep [] = []"
| "Join_with sep [x] = x"
| "Join_with sep (x # y # ys) = x @ sep @ Join_with sep (y # ys)"

text \<open>
  \<open>strconv.Quote\<close>, which \<open>fmt\<close> applies to each element under the verb \<open>%q\<close>: a
  double-quoted Go string literal. On a string of bytes below \<open>0x7F\<close>: a printable
  byte stands for itself, the double quote and the backslash are escaped, the control
  characters have their short escapes or \<open>\x\<close> and two hexadecimal digits. On any other
  string the tables of package \<open>unicode\<close> decide.
\<close>

definition hex_digit :: "nat \<Rightarrow> char" where
  "hex_digit n = (if n < 10 then char_of (48 + n) else char_of (87 + n))"

definition quote_char :: "char \<Rightarrow> string" where
  "quote_char c =
     (let n = (of_char c :: nat) in
      if n = 34 then [CHR 0x5C, CHR 0x22]
      else if n = 92 then [CHR 0x5C, CHR 0x5C]
      else if 32 \<le> n \<and> n < 127 then [c]
      else if n = 7 then [CHR 0x5C, CHR ''a'']
      else if n = 8 then [CHR 0x5C, CHR ''b'']
      else if n = 12 then [CHR 0x5C, CHR ''f'']
      else if n = 10 then [CHR 0x5C, CHR ''n'']
      else if n = 13 then [CHR 0x5C, CHR ''r'']
      else if n = 9 then [CHR 0x5C, CHR ''t'']
      else if n = 11 then [CHR 0x5C, CHR ''v'']
      else [CHR 0x5C, CHR ''x'', hex_digit (n div 16), hex_digit (n mod 16)])"

definition below_DEL :: "char \<Rightarrow> bool" where
  "below_DEL c = ((of_char c :: nat) < 127)"

definition Quote :: "unicode \<Rightarrow> string \<Rightarrow> string" where
  "Quote u s =
     (if list_all below_DEL s then [CHR 0x22] @ concat (map quote_char s) @ [CHR 0x22]
      else Quote_runes u s)"

text \<open>\<open>fmt.Sprintf("%q", flags)\<close> for a slice of strings: \<open>["a" "b"]\<close>.\<close>

definition Sprintf_q :: "unicode \<Rightarrow> string list \<Rightarrow> string" where
  "Sprintf_q u xs = ''['' @ Join_with '' '' (map (Quote u) xs) @ '']''"

section \<open>The manifest and the builder\<close>

datatype error = Error string

record Artifact =
  Source :: string
  Dest :: string

record Step =
  Name :: string
  Dockerfile :: string
  Artifacts :: "Artifact list"
  Cleanup_Commands :: "string list"
  Command :: string

record Manifest =
  Steps :: "Step list"

record Config =
  Workdir :: string
  NoSquash :: bool

record Builder =
  UniqueID :: string
  Conf :: Config

text \<open>
  Modelled from the spec: \<open>Manifest.FindStepByName\<close>, which is declared in the
  manifest's file and not in the builder's. The spec has the rewriter ask whether the
  base image "exactly matches another step's logical Name": the first step of the manifest
  with that name, no step (Go's \<open>nil\<close>) when there is none, and no error.
\<close>

definition FindStepByName :: "Manifest \<Rightarrow> string \<Rightarrow> error + Step option" where
  "FindStepByName m name = Inr (find (\<lambda>s. Name s = name) (Steps m))"

subsection \<open>uniqueStepName\<close>

definition uniqueStepName :: "unicode \<Rightarrow> Builder \<Rightarrow> Step \<Rightarrow> string" where
  "uniqueStepName u b step =
     (if UniqueID b = [] then Name step
      else ToLower u
        (if Contains (Name step) CHR '':''
         then (let parts = Split (Name step) CHR '':''
               in parts ! 0 @ ''-'' @ UniqueID b @ '':'' @ parts ! 1)
         else Name step @ ''-'' @ UniqueID b))"

section \<open>The parsed build file\<close>

text \<open>
  \<open>parser.Node\<close> of the build-file parser, with the fields the builder reads: the
  value, the next argument of the same instruction, the children, the original line and
  the flags.
\<close>

datatype node = Node
  (Value: string)
  (Next: "node option")
  (Children: "node list")
  (Original: string)
  (Flags: "string list")

subsection \<open>dumpDockerfile\<close>

text \<open>
  The function appends to \<open>str\<close> in three places: the flags, the loop over the
  children (\<open>dumpChildren\<close>) and the loop along the \<open>Next\<close> links (\<open>dumpNext\<close>).
\<close>

fun dumpDockerfile :: "unicode \<Rightarrow> node \<Rightarrow> string"
  and dumpChildren :: "unicode \<Rightarrow> node list \<Rightarrow> string"
  and dumpNext :: "unicode \<Rightarrow> node option \<Rightarrow> string"
where
  "dumpDockerfile u (Node v nx cs orig fl) =
     TrimSpace (v @ (if length fl > 0 then '' '' @ Sprintf_q u fl else [])
                  @ dumpChildren u cs @ dumpNext u nx)"
| "dumpChildren u [] = []"
| "dumpChildren u (n # ns) =
     (if Value n = ''cmd'' then Original n @ [CHR 0x0A]
      else dumpDockerfile u n @ [CHR 0x0A]) @ dumpChildren u ns"
| "dumpNext u None = []"
| "dumpNext u (Some (Node v nx cs orig fl)) =
     (if length cs > 0 then '' '' @ dumpDockerfile u (Node v nx cs orig fl)
      else '' '' @ v) @ dumpNext u nx"

subsection \<open>The loop of replaceFromField\<close>

text \<open>The assignment \<open>child.Next.Value = ...\<close>.\<close>

fun set_Next_Value :: "node \<Rightarrow> string \<Rightarrow> node" where
  "set_Next_Value (Node v None cs orig fl) x = Node v None cs orig fl"
| "set_Next_Value (Node v (Some (Node v' nx' cs' orig' fl')) cs orig fl) x =
     Node v (Some (Node x nx' cs' orig' fl')) cs orig fl"

definition no_valid_FROM :: error where
  "no_valid_FROM = Error ''invalid Dockerfile. No valid FROM found''"

fun rewriteFrom :: "unicode \<Rightarrow> Builder \<Rightarrow> Manifest \<Rightarrow> node list \<Rightarrow> error + node list" where
  "rewriteFrom u b m [] = Inr []"
| "rewriteFrom u b m (child # rest) =
     (if Value child = ''from'' then
        (case Next child of
           None \<Rightarrow> Inl no_valid_FROM
         | Some nx \<Rightarrow>
             (case FindStepByName m (Value nx) of
                Inl err \<Rightarrow> Inl err
              | Inr found \<Rightarrow>
                  (case rewriteFrom u b m rest of
                     Inl err \<Rightarrow> Inl err
                   | Inr rest' \<Rightarrow>
                       Inr ((case found of
                               None \<Rightarrow> child
                             | Some st \<Rightarrow> set_Next_Value child (uniqueStepName u b st)) # rest'))))
      else (case rewriteFrom u b m rest of
              Inl err \<Rightarrow> Inl err
            | Inr rest' \<Rightarrow> Inr (child # rest')))"

section \<open>Paths\<close>

text \<open>
  \<open>path.Clean\<close> works on the elements between the slashes: empty elements and
  \<open>.\<close> are dropped, \<open>..\<close> removes the element before it when there is one, is
  dropped at the root and is kept at the front of a relative path. \<open>acc\<close> holds the
  elements kept so far, the last one first.
\<close>

fun clean_elems :: "bool \<Rightarrow> string list \<Rightarrow> string list \<Rightarrow> string list" where
  "clean_elems rooted acc [] = rev acc"
| "clean_elems rooted acc (e # es) =
     (if e = [] \<or> e = ''.'' then clean_elems rooted acc es
      else if e = ''..'' then
        (case acc of
           [] \<Rightarrow> if rooted then clean_elems rooted [] es
                 else clean_elems rooted [''..''] es
         | e' # acc' \<Rightarrow>
             if e' = ''..'' then clean_elems rooted (''..'' # acc) es
             else clean_elems rooted acc' es)
      else clean_elems rooted (e # acc) es)"

definition Clean :: "string \<Rightarrow> string" where
  "Clean p =
     (if p = [] then ''.''
      else (let rooted = (hd p = CHR ''/'');
                out = (if rooted then ''/'' else [])
                      @ Join_with ''/'' (clean_elems rooted [] (Split p CHR ''/''))
            in if out = [] then ''.'' else out))"

text \<open>\<open>path.Join\<close> and, on a Unix host, \<open>filepath.Join\<close>.\<close>

definition path_Join :: "string list \<Rightarrow> string" where
  "path_Join elem =
     (case dropWhile (\<lambda>e. e = []) elem of
        [] \<Rightarrow> []
      | e # es \<Rightarrow> Clean (Join_with ''/'' (e # es)))"

definition filepath_Base :: "string \<Rightarrow> string" where
  "filepath_Base p =
     (if p = [] then ''.''
      else (let p' = rev (dropWhile (\<lambda>c. c = CHR ''/'') (rev p))
            in if p' = [] then ''/'' else last (Split p' CHR ''/'')))"

definition uniqueDockerfile :: "Builder \<Rightarrow> Step \<Rightarrow> string" where
  "uniqueDockerfile b step = path_Join [Workdir (Conf b), Dockerfile step] @ ''.generated''"

section \<open>The host and the build daemon\<close>

text \<open>
  Every call that leaves the process is a \<open>call\<close>: the file operations of the host and
  the requests to the build daemon, the squasher and the random-name generator. The
  \<open>world\<close> is what the builder changes: the regular files of the host with their
  content and permission bits, the directories known to exist, the calls made so far in
  order, and what went to the logger at error level.
\<close>

datatype call =
    Open string
  | WriteFile string string
  | Remove string
  | MkdirAll string
  | Create string
  | Copy string
  | Chmod string "32 word"
  | TempFile
  | Uniuri
  | BuildImage string string
  | CreateContainer string string
  | StartContainer string
  | StopContainer string
  | CreateExec string "string list" bool
  | StartExec string
  | InspectExec string
  | CommitContainer string
  | ExportImage string string
  | Squash string string string
  | LoadImage string
  | DownloadFromContainer string string
  | RemoveContainer string bool bool

datatype logged =
    CleanupExecFailed error
  | PermissionsFetchFailed string error
  | PermissionsParseFailed string
  | CommandExecFailed string error
  | CommandExitCode int

record hostfile =
  content :: string
  perm :: "32 word"

record world =
  files :: "string \<rightharpoonup> hostfile"
  dirs :: "string set"
  calls :: "call list"
  errlog :: "logged list"

text \<open>
  What the reader of a downloaded archive returns from \<open>tr.Next()\<close>, entry after entry:
  a header with its type flag and the bytes of the entry, or an error. The end of the list
  is \<open>io.EOF\<close>.
\<close>

datatype tar_next = Header char string | ReadError error

definition TypeReg :: char where
  "TypeReg = CHR ''0''"

text \<open>
  The environment answers each call; its answer may depend on the calls made before. An
  answer carries the error, if the call fails, and the values that calls return: an
  identifier (of a container, an exec session, an image, a temporary file, a random
  suffix), the bytes of an output stream, an exit code, the entries of an archive. Each
  call site reads the fields its call returns. \<open>Parse\<close> is the build-file parser,
  and \<open>Unicode\<close> the tables of Go's library.
\<close>

record reply =
  err :: "error option"
  ident :: string
  stream :: string
  exit_code :: int
  archive :: "tar_next list"

record env =
  respond :: "call list \<Rightarrow> call \<Rightarrow> reply"
  Parse :: "string \<Rightarrow> error + node"
  Unicode :: unicode

definition ask :: "env \<Rightarrow> call \<Rightarrow> world \<Rightarrow> reply" where
  "ask e c w = respond e (calls w) c"

definition made :: "call \<Rightarrow> world \<Rightarrow> world" where
  "made c w = w\<lparr>calls := calls w @ [c]\<rparr>"

definition logError :: "logged \<Rightarrow> world \<Rightarrow> world" where
  "logError l w = w\<lparr>errlog := errlog w @ [l]\<rparr>"

text \<open>A request to the daemon that returns an error only.\<close>

definition request :: "env \<Rightarrow> call \<Rightarrow> world \<Rightarrow> error option \<times> world" where
  "request e c w = (err (ask e c w), made c w)"

subsection \<open>File operations of the host\<close>

text \<open>
  Each operation asks the environment first, which may refuse it (permissions, a full
  disk); otherwise it has its effect on the files and directories of the world. The
  permission bits are written in hexadecimal: \<open>0x1A4\<close> is octal 644, \<open>0x1B6\<close> is 666,
  \<open>0x180\<close> is 600, \<open>0x1C0\<close> is 700 and \<open>0x1FF\<close> is 777.
\<close>

definition no_such_file :: error where
  "no_such_file = Error ''no such file or directory''"

definition is_a_directory :: error where
  "is_a_directory = Error ''is a directory''"

definition not_a_directory :: error where
  "not_a_directory = Error ''not a directory''"

definition os_Open :: "env \<Rightarrow> string \<Rightarrow> world \<Rightarrow> (error + string) \<times> world" where
  "os_Open ev p w =
     (let r = ask ev (Open p) w; w' = made (Open p) w in
      case err r of
        Some x \<Rightarrow> (Inl x, w')
      | None \<Rightarrow>
          (case files w p of
             None \<Rightarrow> (Inl no_such_file, w')
           | Some f \<Rightarrow> (Inr (content f), w')))"

text \<open>A file that exists keeps its permission bits when it is truncated.\<close>

definition truncated :: "world \<Rightarrow> string \<Rightarrow> string \<Rightarrow> 32 word \<Rightarrow> hostfile" where
  "truncated w p d pm =
     (case files w p of
        None \<Rightarrow> \<lparr>content = d, perm = pm\<rparr>
      | Some f \<Rightarrow> \<lparr>content = d, perm = perm f\<rparr>)"

definition ioutil_WriteFile ::
  "env \<Rightarrow> string \<Rightarrow> string \<Rightarrow> 32 word \<Rightarrow> world \<Rightarrow> error option \<times> world" where
  "ioutil_WriteFile ev p d pm w =
     (let r = ask ev (WriteFile p d) w; w' = made (WriteFile p d) w in
      case err r of
        Some x \<Rightarrow> (Some x, w')
      | None \<Rightarrow>
          if p \<in> dirs w then (Some is_a_directory, w')
          else (None, w'\<lparr>files := (files w)(p \<mapsto> truncated w p d pm)\<rparr>))"

definition os_Create :: "env \<Rightarrow> string \<Rightarrow> world \<Rightarrow> error option \<times> world" where
  "os_Create ev p w =
     (let r = ask ev (Create p) w; w' = made (Create p) w in
      case err r of
        Some x \<Rightarrow> (Some x, w')
      | None \<Rightarrow>
          if p \<in> dirs w then (Some is_a_directory, w')
          else (None, w'\<lparr>files := (files w)(p \<mapsto> truncated w p [] 0x1B6)\<rparr>))"

text \<open>\<open>io.Copy\<close> into the file opened at \<open>p\<close>: the bytes go after what is there.\<close>

definition io_Copy :: "env \<Rightarrow> string \<Rightarrow> string \<Rightarrow> world \<Rightarrow> error option \<times> world" where
  "io_Copy ev p d w =
     (let r = ask ev (Copy p) w; w' = made (Copy p) w in
      case err r of
        Some x \<Rightarrow> (Some x, w')
      | None \<Rightarrow>
          (case files w p of
             None \<Rightarrow> (None, w'\<lparr>files := (files w)(p \<mapsto> \<lparr>content = d, perm = 0x1B6\<rparr>)\<rparr>)
           | Some f \<Rightarrow>
               (None, w'\<lparr>files := (files w)(p \<mapsto> f\<lparr>content := content f @ d\<rparr>)\<rparr>)))"

definition os_Remove :: "env \<Rightarrow> string \<Rightarrow> world \<Rightarrow> error option \<times> world" where
  "os_Remove ev p w =
     (let r = ask ev (Remove p) w; w' = made (Remove p) w in
      case err r of
        Some x \<Rightarrow> (Some x, w')
      | None \<Rightarrow>
          if p \<in> dom (files w) then (None, w'\<lparr>files := (files w)(p := None)\<rparr>)
          else if p \<in> dirs w then (None, w'\<lparr>dirs := dirs w - {p}\<rparr>)
          else (Some no_such_file, w'))"

text \<open>
  The directories above \<open>p\<close>: its prefixes that end before a slash. \<open>os.MkdirAll\<close>
  makes those that are missing, and fails when the path or one of the directories above it
  is a regular file.
\<close>

definition parent_dirs :: "string \<Rightarrow> string list" where
  "parent_dirs p = map (\<lambda>i. take i p) (filter (\<lambda>i. p ! i = CHR ''/'') [1..<length p])"

definition parents :: "string \<Rightarrow> string set" where
  "parents p = set (parent_dirs p)"

definition file_in_the_way :: "world \<Rightarrow> string \<Rightarrow> bool" where
  "file_in_the_way w p = list_ex (\<lambda>q. q \<in> dom (files w)) (p # parent_dirs p)"

definition os_MkdirAll :: "env \<Rightarrow> string \<Rightarrow> world \<Rightarrow> error option \<times> world" where
  "os_MkdirAll ev p w =
     (let r = ask ev (MkdirAll p) w; w' = made (MkdirAll p) w in
      case err r of
        Some x \<Rightarrow> (Some x, w')
      | None \<Rightarrow>
          if file_in_the_way w p then (Some not_a_directory, w')
          else (None, w'\<lparr>dirs := insert p (parents p \<union> dirs w)\<rparr>))"

text \<open>
  \<open>os.Chmod\<close> hands \<open>syscallMode\<close> of its argument to the system: the nine permission
  bits, and the set-uid, set-gid and sticky bits where \<open>FileMode\<close> keeps them (bits 23,
  22 and 20).
\<close>

definition syscallMode :: "32 word \<Rightarrow> 32 word" where
  "syscallMode i =
     (i AND 0x1FF)
     OR (if i AND 0x800000 \<noteq> 0 then 0x800 else 0)
     OR (if i AND 0x400000 \<noteq> 0 then 0x400 else 0)
     OR (if i AND 0x100000 \<noteq> 0 then 0x200 else 0)"

definition os_Chmod :: "env \<Rightarrow> string \<Rightarrow> 32 word \<Rightarrow> world \<Rightarrow> error option \<times> world" where
  "os_Chmod ev p m w =
     (let r = ask ev (Chmod p m) w; w' = made (Chmod p m) w in
      case err r of
        Some x \<Rightarrow> (Some x, w')
      | None \<Rightarrow>
          (case files w p of
             Some f \<Rightarrow> (None, w'\<lparr>files := (files w)(p \<mapsto> f\<lparr>perm := syscallMode m\<rparr>)\<rparr>)
           | None \<Rightarrow> if p \<in> dirs w then (None, w') else (Some no_such_file, w')))"

text \<open>\<open>ioutil.TempFile\<close>: a new empty file, under the name the environment picks.\<close>

definition ioutil_TempFile :: "env \<Rightarrow> world \<Rightarrow> (error + string) \<times> world" where
  "ioutil_TempFile ev w =
     (let r = ask ev TempFile w; w' = made TempFile w in
      case err r of
        Some x \<Rightarrow> (Inl x, w')
      | None \<Rightarrow>
          (Inr (ident r),
           w'\<lparr>files := (files w)(ident r \<mapsto> \<lparr>content = [], perm = 0x180\<rparr>)\<rparr>))"

section \<open>replaceFromField\<close>

definition replaceFromField ::
  "Builder \<Rightarrow> Manifest \<Rightarrow> Step \<Rightarrow> env \<Rightarrow> world \<Rightarrow> error option \<times> world" where
  "replaceFromField b m step ev w =
     (case os_Open ev (path_Join [Workdir (Conf b), Dockerfile step]) w of
        (Inl x, w1) \<Rightarrow> (Some x, w1)
      | (Inr body, w1) \<Rightarrow>
          (case Parse ev body of
             Inl x \<Rightarrow> (Some x, w1)
           | Inr root \<Rightarrow>
               (case rewriteFrom (Unicode ev) b m (Children root) of
                  Inl x \<Rightarrow> (Some x, w1)
                | Inr children \<Rightarrow>
                    ioutil_WriteFile ev (uniqueDockerfile b step)
                      (dumpDockerfile (Unicode ev)
                         (Node (Value root) (Next root) children (Original root) (Flags root)))
                      0x1A4 w1)))"

section \<open>Reading the permissions\<close>

text \<open>
  \<open>strconv.Atoi\<close> is \<open>ParseInt(s, 10, 0)\<close>, with \<open>int\<close> of 64 bits. \<open>ParseUint\<close>
  reads digit after digit and stops at the first byte that is no digit (a syntax error,
  value 0) or at the digit that takes the value past 64 bits (a range error, value
  \<open>2^64 - 1\<close>). \<open>ParseInt\<close> takes the sign off, and on a value out of the signed range
  returns the nearest bound together with the range error.
\<close>

datatype num_error = ErrSyntax | ErrRange

definition is_digit :: "char \<Rightarrow> bool" where
  "is_digit c = (48 \<le> (of_char c :: nat) \<and> (of_char c :: nat) \<le> 57)"

definition digit_val :: "char \<Rightarrow> nat" where
  "digit_val c = (of_char c :: nat) - 48"

fun ParseUint_from :: "nat \<Rightarrow> string \<Rightarrow> nat \<times> num_error option" where
  "ParseUint_from n [] = (n, None)"
| "ParseUint_from n (c # cs) =
     (if \<not> is_digit c then (0, Some ErrSyntax)
      else if n * 10 + digit_val c \<ge> 2 ^ 64 then (2 ^ 64 - 1, Some ErrRange)
      else ParseUint_from (n * 10 + digit_val c) cs)"

definition ParseUint :: "string \<Rightarrow> nat \<times> num_error option" where
  "ParseUint s = (if s = [] then (0, Some ErrSyntax) else ParseUint_from 0 s)"

definition Atoi :: "string \<Rightarrow> int \<times> num_error option" where
  "Atoi s =
     (if s = [] then (0, Some ErrSyntax)
      else (let neg = (hd s = CHR ''-'');
                s' = (if hd s = CHR ''+'' \<or> hd s = CHR ''-'' then tl s else s);
                (un, er) = ParseUint s'
            in if er = Some ErrSyntax then (0, er)
               else if \<not> neg \<and> un \<ge> 2 ^ 63 then (2 ^ 63 - 1, Some ErrRange)
               else if neg \<and> un > 2 ^ 63 then (- (2 ^ 63), Some ErrRange)
               else (if neg then - int un else int un, None)))"

text \<open>The output of the \<open>stat\<close> session, without its quotes and line ends, through Atoi.\<close>

definition permsString :: "string \<Rightarrow> string" where
  "permsString buf = Remove_all (Remove_all buf (CHR 0x27)) (CHR 0x0A)"

text \<open>\<open>perms[a.Source]\<close>: a key that is not in a Go map reads as 0.\<close>

definition lookup_perm :: "(string \<rightharpoonup> int) \<Rightarrow> string \<Rightarrow> int" where
  "lookup_perm perms k = (case perms k of None \<Rightarrow> 0 | Some v \<Rightarrow> v)"

text \<open>\<open>os.FileMode(perms[a.Source])|0700\<close>, the mode that copyToHost gives to \<open>os.Chmod\<close>.\<close>

definition artifactMode :: "(string \<rightharpoonup> int) \<Rightarrow> string \<Rightarrow> 32 word" where
  "artifactMode perms k = (word_of_int (lookup_perm perms k) :: 32 word) OR 0x1C0"

section \<open>copyToHost\<close>

text \<open>The loop over the entries of the downloaded archive.\<close>

definition invalid_header_type :: error where
  "invalid_header_type = Error ''Invalid header type''"

fun extractEntries :: "env \<Rightarrow> string \<Rightarrow> tar_next list \<Rightarrow> world \<Rightarrow> error option \<times> world" where
  "extractEntries ev destFile [] w = (None, w)"
| "extractEntries ev destFile (ReadError x # rest) w = (Some x, w)"
| "extractEntries ev destFile (Header flag d # rest) w =
     (if flag = TypeReg then
        (case os_Create ev destFile w of
           (Some x, w1) \<Rightarrow> (Some x, w1)
         | (None, w1) \<Rightarrow>
             (case io_Copy ev destFile d w1 of
                (Some x, w2) \<Rightarrow> (Some x, w2)
              | (None, w2) \<Rightarrow> extractEntries ev destFile rest w2))
      else (Some invalid_header_type, w))"

definition copyToHost ::
  "Builder \<Rightarrow> Artifact \<Rightarrow> string \<Rightarrow> (string \<rightharpoonup> int) \<Rightarrow> env \<Rightarrow> world
     \<Rightarrow> error option \<times> world" where
  "copyToHost b a container perms ev w =
     (let destPath = path_Join [Workdir (Conf b), Dest a] in
      case os_MkdirAll ev destPath w of
        (Some x, w1) \<Rightarrow> (Some x, w1)
      | (None, w1) \<Rightarrow>
          (let c = DownloadFromContainer container (Source a);
               r = ask ev c w1; w2 = made c w1 in
           case err r of
             Some x \<Rightarrow> (Some x, w2)
           | None \<Rightarrow>
               (let destFile = path_Join [destPath, filepath_Base (Source a)] in
                case extractEntries ev destFile (archive r) w2 of
                  (Some x, w3) \<Rightarrow> (Some x, w3)
                | (None, w3) \<Rightarrow>
                    os_Chmod ev destFile (artifactMode perms (Source a)) w3)))"

section \<open>BuildStep\<close>

text \<open>
  BuildStep returns from many places. A part of it either makes BuildStep return (\<open>Inl\<close>,
  with the returned error, \<open>None\<close> for Go's \<open>nil\<close>, and the world at that moment) or
  goes on (\<open>Inr\<close>).
\<close>

type_synonym returned = "error option \<times> world"

text \<open>A call followed by \<open>if err != nil { return err }\<close>.\<close>

definition calling ::
  "env \<Rightarrow> call \<Rightarrow> world \<Rightarrow> (reply \<Rightarrow> world \<Rightarrow> returned + 'a) \<Rightarrow> returned + 'a" where
  "calling ev c w k =
     (let r = ask ev c w; w' = made c w in
      case err r of
        Some x \<Rightarrow> Inl (Some x, w')
      | None \<Rightarrow> k r w')"

definition orReturn :: "error option \<times> world \<Rightarrow> (world \<Rightarrow> returned + 'a) \<Rightarrow> returned + 'a" where
  "orReturn res k =
     (case res of
        (Some x, w) \<Rightarrow> Inl (Some x, w)
      | (None, w) \<Rightarrow> k w)"

subsection \<open>createContainer\<close>

text \<open>
  The regular expression \<open>/?[^a-zA-Z0-9_-]+\<close> matches, from the first byte outside the
  class on, the whole run of such bytes (a slash is one of them), so \<open>ReplaceAllString\<close>
  puts one \<open>-\<close> for each maximal run.
\<close>

definition name_char :: "char \<Rightarrow> bool" where
  "name_char c =
     (let n = (of_char c :: nat) in
      (48 \<le> n \<and> n \<le> 57) \<or> (65 \<le> n \<and> n \<le> 90) \<or> (97 \<le> n \<and> n \<le> 122)
      \<or> c = CHR ''_'' \<or> c = CHR ''-'')"

function sanitize :: "string \<Rightarrow> string" where
  "sanitize [] = []"
| "sanitize (c # cs) =
     (if name_char c then c # sanitize cs
      else CHR ''-'' # sanitize (dropWhile (\<lambda>x. \<not> name_char x) cs))"
  by pat_completeness auto
termination
  by (relation "measure length") (auto simp: length_dropWhile_le less_Suc_eq_le)

definition createContainer ::
  "Builder \<Rightarrow> Step \<Rightarrow> env \<Rightarrow> world \<Rightarrow> (error + string) \<times> world" where
  "createContainer b step ev w =
     (let suffix = ident (ask ev Uniuri w); w0 = made Uniuri w;
          containerName = sanitize (uniqueStepName (Unicode ev) b step) @ ''.'' @ suffix;
          c = CreateContainer containerName (uniqueStepName (Unicode ev) b step);
          r = ask ev c w0; w1 = made c w0 in
      case err r of
        Some x \<Rightarrow> (Inl x, w1)
      | None \<Rightarrow> (Inr (ident r), w1))"

subsection \<open>The cleanup commands and the squashing\<close>

fun runCleanup :: "env \<Rightarrow> string \<Rightarrow> string list \<Rightarrow> world \<Rightarrow> returned + world" where
  "runCleanup ev container [] w = Inr w"
| "runCleanup ev container (cmd # cmds) w =
     calling ev (CreateExec container (Split cmd CHR '' '') False) w (\<lambda>execObj w1.
       (let c = StartExec (ident execObj);
            r = ask ev c w1; w2 = made c w1;
            w3 = (case err r of
                    Some x \<Rightarrow> logError (CleanupExecFailed x) w2
                  | None \<Rightarrow> w2)
        in runCleanup ev container cmds w3))"

definition put_content :: "string \<Rightarrow> string \<Rightarrow> world \<Rightarrow> world" where
  "put_content p d w = w\<lparr>files := (files w)(p \<mapsto> truncated w p d 0x1B6)\<rparr>"

definition tempFile :: "env \<Rightarrow> world \<Rightarrow> (string \<Rightarrow> world \<Rightarrow> returned + 'a) \<Rightarrow> returned + 'a" where
  "tempFile ev w k =
     (case ioutil_TempFile ev w of
        (Inl x, w') \<Rightarrow> Inl (Some x, w')
      | (Inr name, w') \<Rightarrow> k name w')"

definition cleanupAndSquash ::
  "Builder \<Rightarrow> Step \<Rightarrow> string \<Rightarrow> env \<Rightarrow> world \<Rightarrow> returned + world" where
  "cleanupAndSquash b step container ev w =
     (if \<not> NoSquash (Conf b) \<and> length (Cleanup_Commands step) > 0 then
        calling ev (StartContainer container) w (\<lambda>_ w1.
        case runCleanup ev container (Cleanup_Commands step) w1 of
          Inl res \<Rightarrow> Inl res
        | Inr w2 \<Rightarrow>
        calling ev (CommitContainer container) w2 (\<lambda>img w3.
        calling ev (StopContainer container) w3 (\<lambda>_ w4.
        tempFile ev w4 (\<lambda>tmpFile w5.
        orReturn (os_Create ev tmpFile w5) (\<lambda>w6.
        calling ev (ExportImage (ident img) tmpFile) w6 (\<lambda>exported w7.
        tempFile ev (put_content tmpFile (stream exported) w7) (\<lambda>sqTmpFile w8.
        calling ev (Squash tmpFile sqTmpFile (uniqueStepName (Unicode ev) b step)) w8 (\<lambda>squashed w9.
        orReturn (os_Remove ev tmpFile (put_content sqTmpFile (stream squashed) w9)) (\<lambda>w10.
        case os_Open ev sqTmpFile w10 of
          (Inl x, w11) \<Rightarrow> Inl (Some x, w11)
        | (Inr _, w11) \<Rightarrow>
        calling ev (LoadImage sqTmpFile) w11 (\<lambda>_ w12.
        orReturn (os_Remove ev sqTmpFile w12) (\<lambda>w13. Inr w13)))))))))))
      else Inr w)"

subsection \<open>The artifacts\<close>

definition stat_Cmd :: "Artifact \<Rightarrow> string list" where
  "stat_Cmd art = [''stat'', ''--format='' @ [CHR 0x27] @ ''%a'' @ [CHR 0x27], Source art]"

fun statArtifacts ::
  "env \<Rightarrow> string \<Rightarrow> Artifact list \<Rightarrow> (string \<rightharpoonup> int) \<Rightarrow> world
     \<Rightarrow> returned + (string \<rightharpoonup> int) \<times> world" where
  "statArtifacts ev container [] permMap w = Inr (permMap, w)"
| "statArtifacts ev container (art # arts) permMap w =
     calling ev (CreateExec container (stat_Cmd art) False) w (\<lambda>execObj w1.
       (let c = StartExec (ident execObj);
            r = ask ev c w1; w2 = made c w1;
            w3 = (case err r of
                    Some x \<Rightarrow> logError (PermissionsFetchFailed (Source art) x) w2
                  | None \<Rightarrow> w2);
            (perms, er) = Atoi (permsString (stream r));
            w4 = (case er of
                    Some _ \<Rightarrow> logError (PermissionsParseFailed (Source art)) w3
                  | None \<Rightarrow> w3)
        in statArtifacts ev container arts (permMap(Source art \<mapsto> perms)) w4))"

fun copyArtifacts ::
  "Builder \<Rightarrow> string \<Rightarrow> (string \<rightharpoonup> int) \<Rightarrow> env \<Rightarrow> Artifact list \<Rightarrow> world
     \<Rightarrow> returned + world" where
  "copyArtifacts b container permMap ev [] w = Inr w"
| "copyArtifacts b container permMap ev (art # arts) w =
     orReturn (copyToHost b art container permMap ev w)
       (\<lambda>w1. copyArtifacts b container permMap ev arts w1)"

definition fetchArtifacts ::
  "Builder \<Rightarrow> Step \<Rightarrow> string \<Rightarrow> env \<Rightarrow> world \<Rightarrow> returned + world" where
  "fetchArtifacts b step container ev w =
     (if length (Artifacts step) > 0 then
        calling ev (StartContainer container) w (\<lambda>_ w1.
        case statArtifacts ev container (Artifacts step) Map.empty w1 of
          Inl res \<Rightarrow> Inl res
        | Inr (permMap, w2) \<Rightarrow>
        calling ev (StopContainer container) w2 (\<lambda>_ w3.
        copyArtifacts b container permMap ev (Artifacts step) w3))
      else Inr w)"

subsection \<open>The ad hoc command\<close>

text \<open>
  After \<open>InspectExec\<close> has returned without error, the branch for a non-zero exit code
  logs and executes \<open>return err\<close>, with the \<open>err\<close> that InspectExec returned.
\<close>

definition runCommand :: "Step \<Rightarrow> string \<Rightarrow> env \<Rightarrow> world \<Rightarrow> returned + world" where
  "runCommand step container ev w =
     (if Command step \<noteq> [] then
        calling ev (StartContainer container) w (\<lambda>_ w1.
        calling ev (CreateExec container (Split (Command step) CHR '' '') True) w1 (\<lambda>execObj w2.
          (let c = StartExec (ident execObj);
               r = ask ev c w2; w3 = made c w2;
               w4 = (case err r of
                       Some x \<Rightarrow> logError (CommandExecFailed (Command step) x) w3
                     | None \<Rightarrow> w3)
           in calling ev (InspectExec (ident execObj)) w4 (\<lambda>inspect w5.
                if exit_code inspect \<noteq> 0
                then Inl (err inspect, logError (CommandExitCode (exit_code inspect)) w5)
                else calling ev (StopContainer container) w5 (\<lambda>_ w6. Inr w6)))))
      else Inr w)"

subsection \<open>The whole step\<close>

text \<open>
  \<open>needsContainer\<close> is the condition under which BuildStep creates a container;
  \<open>untilCommand\<close> is the part of that block before the ad hoc command (the container,
  the cleanup commands with the squashing, the artifacts) and \<open>withContainer\<close> the whole
  block, which ends with the removal of the container.
\<close>

definition needsContainer :: "Step \<Rightarrow> bool" where
  "needsContainer step =
     (length (Artifacts step) > 0 \<or> length (Cleanup_Commands step) > 0 \<or> Command step \<noteq> [])"

definition untilCommand ::
  "Builder \<Rightarrow> Step \<Rightarrow> env \<Rightarrow> world \<Rightarrow> returned + string \<times> world" where
  "untilCommand b step ev w =
     (case createContainer b step ev w of
        (Inl x, w1) \<Rightarrow> Inl (Some x, w1)
      | (Inr container, w1) \<Rightarrow>
          (case cleanupAndSquash b step container ev w1 of
             Inl res \<Rightarrow> Inl res
           | Inr w2 \<Rightarrow>
               (case fetchArtifacts b step container ev w2 of
                  Inl res \<Rightarrow> Inl res
                | Inr w3 \<Rightarrow> Inr (container, w3))))"

definition withContainer :: "Builder \<Rightarrow> Step \<Rightarrow> env \<Rightarrow> world \<Rightarrow> returned + world" where
  "withContainer b step ev w =
     (if needsContainer step then
        (case untilCommand b step ev w of
           Inl res \<Rightarrow> Inl res
         | Inr (container, w1) \<Rightarrow>
             (case runCommand step container ev w1 of
                Inl res \<Rightarrow> Inl res
              | Inr w2 \<Rightarrow>
                  calling ev (RemoveContainer container True True) w2 (\<lambda>_ w3. Inr w3)))
      else Inr w)"

definition buildImage :: "Builder \<Rightarrow> Step \<Rightarrow> env \<Rightarrow> world \<Rightarrow> error option \<times> world" where
  "buildImage b step ev w =
     request ev (BuildImage (uniqueStepName (Unicode ev) b step) (filepath_Base (uniqueDockerfile b step))) w"

definition BuildStep ::
  "Builder \<Rightarrow> Manifest \<Rightarrow> Step \<Rightarrow> env \<Rightarrow> world \<Rightarrow> error option \<times> world" where
  "BuildStep b m step ev w =
     (case replaceFromField b m step ev w of
        (Some x, w1) \<Rightarrow> (Some x, w1)
      | (None, w1) \<Rightarrow>
          (case buildImage b step ev w1 of
             (Some x, w2) \<Rightarrow> (Some x, w2)
           | (None, w2) \<Rightarrow>
               (case withContainer b step ev w2 of
                  Inl res \<Rightarrow> res
                | Inr w3 \<Rightarrow> os_Remove ev (uniqueDockerfile b step) w3)))"

section \<open>Example inputs\<close>

text \<open>
  A builder with the unique id \<open>abc\<close> and one without, in the working directory
  \<open>/w\<close>; an environment that refuses nothing and answers every call with the same
  identifier, stream, exit code and archive, and whose parser returns a given tree. The
  text of the examples is ASCII, so the tables of \<open>unicode\<close> are never consulted in
  them: \<open>no_tables\<close> stands in their place.
\<close>

definition builder_abc :: Builder where
  "builder_abc = \<lparr>UniqueID = ''abc'', Conf = \<lparr>Workdir = ''/w'', NoSquash = False\<rparr>\<rparr>"

definition builder_plain :: Builder where
  "builder_plain = \<lparr>UniqueID = [], Conf = \<lparr>Workdir = ''/w'', NoSquash = False\<rparr>\<rparr>"

definition no_tables :: unicode where
  "no_tables = \<lparr>Map_ToLower = (\<lambda>s. s), Quote_runes = (\<lambda>s. s)\<rparr>"

definition willing :: "node \<Rightarrow> string \<Rightarrow> int \<Rightarrow> tar_next list \<Rightarrow> env" where
  "willing tree out code entries =
     \<lparr>respond = (\<lambda>tr c. \<lparr>err = None, ident = ''c1'', stream = out, exit_code = code,
                           archive = entries\<rparr>),
      Parse = (\<lambda>body. Inr tree),
      Unicode = no_tables\<rparr>"

definition plain_step :: "string \<Rightarrow> Step" where
  "plain_step n =
     \<lparr>Name = n, Dockerfile = ''Dockerfile'', Artifacts = [], Cleanup_Commands = [],
      Command = []\<rparr>"

definition from_line :: "string \<Rightarrow> node" where
  "from_line token =
     Node ''from'' (Some (Node token None [] [] [])) [] (''FROM '' @ token) []"

definition file_of :: "node list \<Rightarrow> node" where
  "file_of instructions = Node [] None instructions [] []"

definition host_with :: "string \<Rightarrow> world" where
  "host_with body =
     \<lparr>files = [''/w/Dockerfile'' \<mapsto> \<lparr>content = body, perm = 0x1A4\<rparr>],
      dirs = {''/w''}, calls = [], errlog = []\<rparr>"

definition artifact_bin :: Artifact where
  "artifact_bin = \<lparr>Source = ''/out/app.bin'', Dest = ''dist''\<rparr>"

definition run_make :: node where
  "run_make = Node ''run'' (Some (Node ''make'' None [] [] [])) [] ''RUN make'' []"

definition copy_line :: node where
  "copy_line =
     Node ''copy'' (Some (Node ''a'' (Some (Node ''b'' None [] [] [])) [] [] [])) []
       ''COPY --from=0 a b'' [''--from=0'']"

definition hello_env :: env where
  "hello_env = willing (file_of []) [] 0 [Header TypeReg ''hello'']"

text \<open>The host after \<open>/out/app.bin\<close> has been copied out of the container once.\<close>

definition after_copy :: world where
  "after_copy =
     \<lparr>files = [''/w/Dockerfile'' \<mapsto> \<lparr>content = [], perm = 0x1A4\<rparr>,
               ''/w/dist/app.bin'' \<mapsto> \<lparr>content = ''hello'', perm = 0x1C4\<rparr>],
      dirs = {''/w/dist'', ''/w''},
      calls = [MkdirAll ''/w/dist'', DownloadFromContainer ''c1'' ''/out/app.bin'',
               Create ''/w/dist/app.bin'', Copy ''/w/dist/app.bin'',
               Chmod ''/w/dist/app.bin'' 0x3C4],
      errlog = []\<rparr>"

text \<open>
  A step with the ad hoc command \<open>make test\<close>, and environments in which every exec
  session exits with a given code.
\<close>

definition test_step :: Step where
  "test_step = (plain_step ''app'')\<lparr>Command := ''make test''\<rparr>"

definition exits_with :: "int \<Rightarrow> env" where
  "exits_with code = willing (file_of [from_line ''ubuntu'']) [] code []"

text \<open>
  A step with two artifacts, an environment in which every \<open>stat\<close> session prints a
  given text, and the host after the artifacts of that step have been fetched, with the
  mode that went to \<open>os.Chmod\<close>, the permission bits of the two files and what was
  logged.
\<close>

definition artifact_cfg :: Artifact where
  "artifact_cfg = \<lparr>Source = ''/out/app.cfg'', Dest = ''dist''\<rparr>"

definition artifact_step :: Step where
  "artifact_step = (plain_step ''app'')\<lparr>Artifacts := [artifact_bin, artifact_cfg]\<rparr>"

definition quoted_644 :: string where
  "quoted_644 = [CHR 0x27] @ ''644'' @ [CHR 0x27, CHR 0x0A]"

definition nines :: string where
  "nines = ''99999999999999999999''"

definition stat_prints :: "string \<Rightarrow> env" where
  "stat_prints out = willing (file_of []) out 0 [Header TypeReg ''hello'']"

definition fetched :: "32 word \<Rightarrow> 32 word \<Rightarrow> logged list \<Rightarrow> world" where
  "fetched mode bits logs =
     \<lparr>files = [''/w/Dockerfile'' \<mapsto> \<lparr>content = [], perm = 0x1A4\<rparr>,
               ''/w/dist/app.bin'' \<mapsto> \<lparr>content = ''hello'', perm = bits\<rparr>,
               ''/w/dist/app.cfg'' \<mapsto> \<lparr>content = ''hello'', perm = bits\<rparr>],
      dirs = {''/w/dist'', ''/w''},
      calls = [StartContainer ''c1'',
               CreateExec ''c1'' (stat_Cmd artifact_bin) False, StartExec ''c1'',
               CreateExec ''c1'' (stat_Cmd artifact_cfg) False, StartExec ''c1'',
               StopContainer ''c1'',
               MkdirAll ''/w/dist'', DownloadFromContainer ''c1'' ''/out/app.bin'',
               Create ''/w/dist/app.bin'', Copy ''/w/dist/app.bin'',
               Chmod ''/w/dist/app.bin'' mode,
               MkdirAll ''/w/dist'', DownloadFromContainer ''c1'' ''/out/app.cfg'',
               Create ''/w/dist/app.cfg'', Copy ''/w/dist/app.cfg'',
               Chmod ''/w/dist/app.cfg'' mode],
      errlog = logs\<rparr>"

section \<open>Notions for the statements\<close>

text \<open>The arguments of an instruction: the nodes along its \<open>Next\<close> links.\<close>

fun chain :: "node option \<Rightarrow> node list" where
  "chain None = []"
| "chain (Some (Node v nx cs orig fl)) = Node v nx cs orig fl # chain nx"

text \<open>
  An instruction written out with its flags as raw text, as the specification words it:
  the value, the flags and the arguments, with a space between them.
\<close>

definition raw_instruction :: "node \<Rightarrow> string" where
  "raw_instruction n = Join_with '' '' (Value n # Flags n @ map Value (chain (Next n)))"

text \<open>The number that a string of decimal digits denotes.\<close>

definition decimal :: "string \<Rightarrow> nat" where
  "decimal s = foldl (\<lambda>n c. n * 10 + digit_val c) 0 s"

text \<open>
  The bytes that the \<open>stat\<close> session of an artifact writes to its buffer: the stream of
  the answer to StartExec, for the session that CreateExec returned.
\<close>

definition stat_output :: "env \<Rightarrow> string \<Rightarrow> Artifact \<Rightarrow> world \<Rightarrow> string" where
  "stat_output ev container art w =
     stream (ask ev (StartExec (ident (ask ev (CreateExec container (stat_Cmd art) False) w)))
               (made (CreateExec container (stat_Cmd art) False) w))"

text \<open>
  The same for the artifact at index \<open>i\<close> of a list, when statArtifacts starts on the
  list in the world \<open>w\<close>: its session comes after those of the artifacts before it.
\<close>

definition stat_output_at ::
  "env \<Rightarrow> string \<Rightarrow> Artifact list \<Rightarrow> world \<Rightarrow> nat \<Rightarrow> string" where
  "stat_output_at ev container arts w i =
     stat_output ev container (arts ! i)
       (snd (projr (statArtifacts ev container (take i arts) Map.empty w)))"

text \<open>An entry of an archive that is a regular file, and its bytes.\<close>

definition regular :: "tar_next \<Rightarrow> bool" where
  "regular x = (case x of Header flag d \<Rightarrow> flag = TypeReg | ReadError e \<Rightarrow> False)"

definition entry_data :: "tar_next \<Rightarrow> string" where
  "entry_data x = (case x of Header flag d \<Rightarrow> d | ReadError e \<Rightarrow> [])"

text \<open>
  The directory and the file of an artifact on the host, \<open>destPath\<close> and \<open>destFile\<close>
  in copyToHost, and the entries of the archive that copyToHost downloads when it starts
  in the world \<open>w\<close> (its download comes after its MkdirAll).
\<close>

definition destPath_of :: "Builder \<Rightarrow> Artifact \<Rightarrow> string" where
  "destPath_of b a = path_Join [Workdir (Conf b), Dest a]"

definition destFile_of :: "Builder \<Rightarrow> Artifact \<Rightarrow> string" where
  "destFile_of b a = path_Join [destPath_of b a, filepath_Base (Source a)]"

definition downloaded :: "env \<Rightarrow> Builder \<Rightarrow> Artifact \<Rightarrow> string \<Rightarrow> world \<Rightarrow> tar_next list" where
  "downloaded ev b a container w =
     archive (respond ev (calls w @ [MkdirAll (destPath_of b a)])
                (DownloadFromContainer container (Source a)))"

text \<open>The files after the entries \<open>es\<close> have been written to \<open>p\<close> one after the other.\<close>

definition written :: "world \<Rightarrow> string \<Rightarrow> tar_next list \<Rightarrow> string \<rightharpoonup> hostfile" where
  "written w p es =
     (if es = [] then files w
      else (files w)(p \<mapsto> truncated w p (entry_data (last es)) 0x1B6))"

text \<open>The environment refuses no call made after the calls \<open>tr0\<close>.\<close>

definition unrefused :: "env \<Rightarrow> call list \<Rightarrow> bool" where
  "unrefused ev tr0 = (\<forall>tr c. err (respond ev (tr0 @ tr) c) = None)"

text \<open>
  The exec session of the ad hoc command, when runCommand starts in the world \<open>w\<close>, and
  the answer to its inspection: the session is created after the container is started, and
  inspected after it has run.
\<close>

definition session_of :: "env \<Rightarrow> Step \<Rightarrow> string \<Rightarrow> world \<Rightarrow> string" where
  "session_of ev step container w =
     ident (respond ev (calls w @ [StartContainer container])
              (CreateExec container (Split (Command step) CHR '' '') True))"

definition inspected :: "env \<Rightarrow> Step \<Rightarrow> string \<Rightarrow> world \<Rightarrow> reply" where
  "inspected ev step container w =
     respond ev
       (calls w @ [StartContainer container,
                   CreateExec container (Split (Command step) CHR '' '') True,
                   StartExec (session_of ev step container w)])
       (InspectExec (session_of ev step container w))"

section \<open>Properties of the string functions\<close>

lemma Split_not_Nil: "Split s c \<noteq> []"
  by (induction s) (auto split: list.splits)

lemma Split_no_sep: "c \<notin> set s \<Longrightarrow> Split s c = [s]"
  by (induction s) auto

lemma Split_first: "c \<notin> set p \<Longrightarrow> Split (p @ c # r) c = p # Split r c"
  by (induction p) auto

text \<open>The index 1 that uniqueStepName reads is in range whenever the name has a colon.\<close>

lemma Split_length: "c \<in> set s \<Longrightarrow> 2 \<le> length (Split s c)"
  by (induction s) (auto simp: Split_not_Nil split: list.splits)

section \<open>Unique step names\<close>

text \<open>
  With a unique id, a name without a colon gets \<open>-<id>\<close> at its end, and a name with
  one colon gets it before the colon; the result is in lower case.
\<close>

lemma uniqueStepName_no_tag:
  "UniqueID b \<noteq> [] \<Longrightarrow> CHR '':'' \<notin> set (Name s) \<Longrightarrow>
   uniqueStepName u b s = ToLower u (Name s @ ''-'' @ UniqueID b)"
  by (simp add: uniqueStepName_def Contains_def)

lemma uniqueStepName_tag:
  assumes "UniqueID b \<noteq> []" and "Name s = base @ '':'' @ tag"
    and "CHR '':'' \<notin> set base" and "CHR '':'' \<notin> set tag"
  shows "uniqueStepName u b s = ToLower u (base @ ''-'' @ UniqueID b @ '':'' @ tag)"
  using assms by (simp add: uniqueStepName_def Contains_def Split_first Split_no_sep)

lemma find_Name: "find (\<lambda>s. Name s = n) xs = Some st \<Longrightarrow> Name st = n"
  by (induction xs) (auto split: if_splits)

lemma set_Next_Value_same: "Next c = Some nx \<Longrightarrow> set_Next_Value c (Value nx) = c"
  by (cases "(c, Value nx)" rule: set_Next_Value.cases) auto

lemma rewriteFrom_empty_id:
  "UniqueID b = [] \<Longrightarrow> rewriteFrom u b m cs = Inr cs \<or> rewriteFrom u b m cs = Inl no_valid_FROM"
proof (induction cs)
  case Nil
  then show ?case by simp
next
  case (Cons c cs)
  then show ?case
    by (auto simp: FindStepByName_def uniqueStepName_def set_Next_Value_same
        dest!: find_Name split: option.splits sum.splits)
qed

text \<open>
  C9. When the builder's unique id is the empty string, uniqueStepName returns the
  step's name as it is, with no suffix and no change of case. So the loop of
  replaceFromField, when it does not fail, leaves every FROM token as it was, the image is
  built under the step's name, and the container is created from the image of that name
  and named after it.
\<close>

theorem uniqueStepName_without_id:
  assumes "UniqueID b = []"
  shows "uniqueStepName u b step = Name step
    \<and> (rewriteFrom u b m cs = Inr cs \<or> rewriteFrom u b m cs = Inl no_valid_FROM)
    \<and> buildImage b step ev w =
        request ev (BuildImage (Name step) (filepath_Base (uniqueDockerfile b step))) w
    \<and> calls (snd (createContainer b step ev w)) =
        calls w @ [Uniuri,
                   CreateContainer (sanitize (Name step) @ ''.'' @ ident (ask ev Uniuri w))
                     (Name step)]"
proof -
  have name: "uniqueStepName v b step = Name step" for v
    using assms by (simp add: uniqueStepName_def)
  have "calls (snd (createContainer b step ev w)) =
        calls w @ [Uniuri,
                   CreateContainer
                     (sanitize (uniqueStepName (Unicode ev) b step) @ ''.''
                        @ ident (ask ev Uniuri w))
                     (uniqueStepName (Unicode ev) b step)]"
    by (simp add: createContainer_def Let_def made_def split: option.splits)
  with name rewriteFrom_empty_id [OF assms] show ?thesis
    by (simp add: buildImage_def)
qed

theorem uniqueStepName_without_id_witness:
  "UniqueID builder_plain = []
   \<and> uniqueStepName no_tables builder_plain (plain_step ''Web:V2'') = ''Web:V2''
   \<and> rewriteFrom no_tables builder_plain \<lparr>Steps = [plain_step ''Web:V2'']\<rparr> [from_line ''Web:V2'']
       = Inr [from_line ''Web:V2'']"
proof -
  have id: "UniqueID builder_plain = []"
    by (simp add: builder_plain_def)
  have "rewriteFrom no_tables builder_plain \<lparr>Steps = [plain_step ''Web:V2'']\<rparr> [from_line ''Web:V2'']
          \<noteq> Inl no_valid_FROM"
    by (simp add: from_line_def FindStepByName_def plain_step_def)
  with uniqueStepName_without_id [OF id, of no_tables "plain_step ''Web:V2''"
      "\<lparr>Steps = [plain_step ''Web:V2'']\<rparr>" "[from_line ''Web:V2'']"] id
  show ?thesis
    by (simp add: plain_step_def)
qed

text \<open>
  C1. A step named \<open>localhost:5000/app:1.0\<close> (a registry with a port, a repository and
  the tag \<open>1.0\<close>) and the unique id \<open>abc\<close>: uniqueStepName splits the name at every
  colon and keeps the first two parts only, so the FROM token that names this step is
  rewritten to \<open>localhost-abc:5000/app\<close>. The tag is gone and the id is not in front of
  the tag's colon.
\<close>

theorem uniqueStepName_drops_tag:
  "uniqueStepName u builder_abc (plain_step ''localhost:5000/app:1.0'')
     = ''localhost-abc:5000/app''
   \<and> rewriteFrom u builder_abc \<lparr>Steps = [plain_step ''localhost:5000/app:1.0'']\<rparr>
        [from_line ''localhost:5000/app:1.0'']
       = Inr [Node ''from'' (Some (Node ''localhost-abc:5000/app'' None [] [] [])) []
                ''FROM localhost:5000/app:1.0'' []]"
  by (simp add: uniqueStepName_def builder_abc_def plain_step_def Contains_def ToLower_def
      is_ascii_def lower_char_def from_line_def FindStepByName_def)

section \<open>The rewriting of the FROM instructions\<close>

lemma rewriteFrom_no_from:
  "\<forall>c\<in>set cs. Value c \<noteq> ''from'' \<Longrightarrow> rewriteFrom u b m cs = Inr cs"
  by (induction cs) auto

text \<open>The loop has one error of its own.\<close>

lemma rewriteFrom_error: "rewriteFrom u b m cs = Inl x \<Longrightarrow> x = no_valid_FROM"
  by (induction cs arbitrary: x)
    (auto simp: FindStepByName_def split: option.splits sum.splits if_splits)

lemma rewriteFrom_no_argument:
  "c \<in> set cs \<Longrightarrow> Value c = ''from'' \<Longrightarrow> Next c = None \<Longrightarrow>
   rewriteFrom u b m cs = Inl no_valid_FROM"
proof (induction cs)
  case Nil
  then show ?case by simp
next
  case (Cons a cs)
  show ?case
  proof (cases "c = a")
    case True
    with Cons.prems show ?thesis by simp
  next
    case False
    with Cons have "rewriteFrom u b m cs = Inl no_valid_FROM" by simp
    then show ?thesis
      by (simp add: FindStepByName_def split: option.splits)
  qed
qed

text \<open>
  What the loop does to each instruction: a FROM token that names a step of the manifest is
  replaced by the unique name of that step, every other token and every other instruction
  is left as it is.
\<close>

lemma rewriteFrom_length: "rewriteFrom u b m cs = Inr cs' \<Longrightarrow> length cs' = length cs"
  by (induction cs arbitrary: cs')
    (auto simp: FindStepByName_def split: if_splits option.splits sum.splits)

lemma rewriteFrom_nth:
  "rewriteFrom u b m cs = Inr cs' \<Longrightarrow> i < length cs \<Longrightarrow>
   cs' ! i =
     (if Value (cs ! i) = ''from'' then
        (case Next (cs ! i) of
           None \<Rightarrow> cs ! i
         | Some nx \<Rightarrow>
             (case find (\<lambda>s. Name s = Value nx) (Steps m) of
                None \<Rightarrow> cs ! i
              | Some st \<Rightarrow> set_Next_Value (cs ! i) (uniqueStepName u b st)))
      else cs ! i)"
proof (induction cs arbitrary: cs' i)
  case Nil
  then show ?case by simp
next
  case (Cons c cs)
  from Cons.prems(1) obtain c' rest' where cs': "cs' = c' # rest'"
    and rest: "rewriteFrom u b m cs = Inr rest'"
    by (auto simp: FindStepByName_def split: if_splits option.splits sum.splits)
  show ?case
  proof (cases i)
    case 0
    with Cons.prems(1) cs' rest show ?thesis
      by (auto simp: FindStepByName_def split: if_splits option.splits sum.splits)
  next
    case (Suc j)
    with Cons.prems(2) have "j < length cs" by simp
    from Cons.IH [OF rest this] Suc cs' show ?thesis by (simp split: option.splits)
  qed
qed

lemma node_collapse: "Node (Value n) (Next n) (Children n) (Original n) (Flags n) = n"
  by (cases n) simp

text \<open>
  C3, as stated, at a build file with the one line \<open>RUN make\<close> and no FROM
  instruction: replaceFromField returns no error, and the generated file is there, with
  the serialized tree as its content.
\<close>

theorem replaceFromField_accepts_no_FROM:
  "replaceFromField builder_abc \<lparr>Steps = []\<rparr> (plain_step ''app'')
     (willing (file_of [run_make]) [] 0 []) (host_with ''RUN make'')
   = (None, (host_with ''RUN make'')\<lparr>
        files := [''/w/Dockerfile'' \<mapsto> \<lparr>content = ''RUN make'', perm = 0x1A4\<rparr>,
                  ''/w/Dockerfile.generated'' \<mapsto> \<lparr>content = ''run make'', perm = 0x1A4\<rparr>],
        calls := [Open ''/w/Dockerfile'', WriteFile ''/w/Dockerfile.generated'' ''run make'']\<rparr>)"
  by (simp add: replaceFromField_def os_Open_def ioutil_WriteFile_def builder_abc_def
      plain_step_def willing_def host_with_def file_of_def run_make_def path_Join_def Clean_def
      ask_def made_def uniqueDockerfile_def truncated_def TrimSpace_def space_runes_def)

text \<open>
  C3, amended. Once the build file is opened and parsed: a FROM instruction with no
  argument makes replaceFromField return the error "invalid Dockerfile. No valid FROM
  found" without any file written; a build file with no FROM instruction at all is not
  refused: its tree goes unchanged into the generated file, and replaceFromField returns
  what the writing of that file returns.
\<close>

theorem replaceFromField_FROM:
  assumes "os_Open ev (path_Join [Workdir (Conf b), Dockerfile step]) w = (Inr body, w1)"
    and "Parse ev body = Inr root"
  shows "((\<exists>c\<in>set (Children root). Value c = ''from'' \<and> Next c = None) \<longrightarrow>
            replaceFromField b m step ev w = (Some no_valid_FROM, w1) \<and> files w1 = files w)
       \<and> ((\<forall>c\<in>set (Children root). Value c \<noteq> ''from'') \<longrightarrow>
            replaceFromField b m step ev w =
              ioutil_WriteFile ev (uniqueDockerfile b step) (dumpDockerfile (Unicode ev) root)
                0x1A4 w1)"
proof -
  have "files w1 = files w"
    using assms(1) by (auto simp: os_Open_def Let_def made_def split: option.splits)
  then show ?thesis
    using assms
    by (auto simp: replaceFromField_def rewriteFrom_no_from rewriteFrom_no_argument
        node_collapse simp del: rewriteFrom.simps)
qed

theorem replaceFromField_FROM_witness:
  "replaceFromField builder_abc \<lparr>Steps = []\<rparr> (plain_step ''app'')
      (willing (file_of [Node ''from'' None [] ''FROM'' []]) [] 0 []) (host_with ''FROM'')
    = (Some no_valid_FROM, (host_with ''FROM'')\<lparr>calls := [Open ''/w/Dockerfile'']\<rparr>)
   \<and> fst (replaceFromField builder_abc \<lparr>Steps = []\<rparr> (plain_step ''app'')
      (willing (file_of [run_make]) [] 0 []) (host_with ''RUN make'')) = None"
proof -
  let ?b = builder_abc and ?m = "\<lparr>Steps = []\<rparr>" and ?s = "plain_step ''app''"
  let ?ev1 = "willing (file_of [Node ''from'' None [] ''FROM'' []]) [] 0 []"
  let ?ev2 = "willing (file_of [run_make]) [] 0 []"
  have path: "path_Join [Workdir (Conf ?b), Dockerfile ?s] = ''/w/Dockerfile''"
    by (simp add: builder_abc_def plain_step_def path_Join_def Clean_def)
  have open1: "os_Open ?ev1 (path_Join [Workdir (Conf ?b), Dockerfile ?s]) (host_with ''FROM'')
      = (Inr ''FROM'', (host_with ''FROM'')\<lparr>calls := [Open ''/w/Dockerfile'']\<rparr>)"
    unfolding path by (simp add: os_Open_def willing_def host_with_def ask_def made_def)
  have open2: "os_Open ?ev2 (path_Join [Workdir (Conf ?b), Dockerfile ?s]) (host_with ''RUN make'')
      = (Inr ''RUN make'', (host_with ''RUN make'')\<lparr>calls := [Open ''/w/Dockerfile'']\<rparr>)"
    unfolding path by (simp add: os_Open_def willing_def host_with_def ask_def made_def)
  have parse1: "Parse ?ev1 ''FROM'' = Inr (file_of [Node ''from'' None [] ''FROM'' []])"
    by (simp add: willing_def)
  have parse2: "Parse ?ev2 ''RUN make'' = Inr (file_of [run_make])"
    by (simp add: willing_def)
  have "replaceFromField ?b ?m ?s ?ev1 (host_with ''FROM'')
      = (Some no_valid_FROM, (host_with ''FROM'')\<lparr>calls := [Open ''/w/Dockerfile'']\<rparr>)"
    using replaceFromField_FROM [OF open1 parse1, of ?m] by (simp add: file_of_def)
  moreover have "fst (replaceFromField ?b ?m ?s ?ev2 (host_with ''RUN make'')) = None"
    using replaceFromField_FROM [OF open2 parse2, of ?m]
    by (simp add: file_of_def run_make_def ioutil_WriteFile_def willing_def ask_def made_def
        host_with_def uniqueDockerfile_def path)
  ultimately show ?thesis by simp
qed

section \<open>The serialization of the tree\<close>

lemma dumpNext_flat:
  "\<forall>a\<in>set (chain nx). Children a = [] \<Longrightarrow>
   dumpNext u nx = concat (map (\<lambda>a. '' '' @ Value a) (chain nx))"
  by (induction nx rule: chain.induct) auto

lemma dumpChildren_append: "dumpChildren u (xs @ ys) = dumpChildren u xs @ dumpChildren u ys"
  by (induction xs) auto

lemma Join_with_spaces:
  "Join_with '' '' (x # xs) = x @ concat (map (\<lambda>a. '' '' @ a) xs)"
  by (induction xs arbitrary: x) auto

lemma dumpDockerfile_instruction:
  assumes "Children n = []" and "\<forall>a\<in>set (chain (Next n)). Children a = []"
  shows "dumpDockerfile u n =
     TrimSpace (Value n
       @ (if Flags n = [] then [] else '' ['' @ Join_with '' '' (map (Quote u) (Flags n)) @ '']'')
       @ concat (map (\<lambda>a. '' '' @ Value a) (chain (Next n))))"
  using assms by (cases n) (simp add: dumpNext_flat Sprintf_q_def)

text \<open>The tree that the parser returns has an empty value, no flags and no argument.\<close>

lemma dumpDockerfile_root:
  "Value root = [] \<Longrightarrow> Flags root = [] \<Longrightarrow> Next root = None \<Longrightarrow>
   dumpDockerfile u root = TrimSpace (dumpChildren u (Children root))"
  by (cases root) simp

text \<open>
  A line of the serialization: an instruction that is not \<open>cmd\<close> and has no children,
  in itself or in its arguments, gives its value, its flags the way \<open>%q\<close> prints them
  and the values of its arguments, trimmed; without flags this is the raw instruction,
  trimmed.
\<close>

lemma dumpChildren_line:
  assumes "i < length cs" and "Value (cs ! i) \<noteq> ''cmd''"
    and "Children (cs ! i) = []" and "\<forall>a\<in>set (chain (Next (cs ! i))). Children a = []"
  shows "dumpChildren u cs =
           dumpChildren u (take i cs)
           @ TrimSpace (Value (cs ! i)
               @ (if Flags (cs ! i) = [] then []
                  else '' ['' @ Join_with '' '' (map (Quote u) (Flags (cs ! i))) @ '']'')
               @ concat (map (\<lambda>a. '' '' @ Value a) (chain (Next (cs ! i)))))
           @ [CHR 0x0A]
           @ dumpChildren u (drop (Suc i) cs)
       \<and> (Flags (cs ! i) = [] \<longrightarrow>
            dumpDockerfile u (cs ! i) = TrimSpace (raw_instruction (cs ! i)))"
proof -
  have "cs = take i cs @ cs ! i # drop (Suc i) cs"
    using assms(1) by (simp add: id_take_nth_drop)
  then have "dumpChildren u cs = dumpChildren u (take i cs) @ dumpChildren u (cs ! i # drop (Suc i) cs)"
    by (metis dumpChildren_append)
  moreover have "Flags (cs ! i) = [] \<longrightarrow>
      dumpDockerfile u (cs ! i) = TrimSpace (raw_instruction (cs ! i))"
    using assms(3,4)
    by (simp add: dumpDockerfile_instruction raw_instruction_def Join_with_spaces comp_def)
  ultimately show ?thesis
    using assms(2-4) by (simp add: dumpDockerfile_instruction)
qed

text \<open>
  C8. The build file \<open>FROM ubuntu\<close>, \<open>COPY --from=0 a b\<close>, whose second instruction
  has the flag \<open>--from=0\<close>: replaceFromField returns no error, and the generated file
  holds the line \<open>copy ["--from=0"] a b\<close>. The flag is not there as its raw text,
  which would give \<open>copy --from=0 a b\<close>: it stands between brackets and double quotes.
  In BuildStep this is the file that is written and then named to the image build.
\<close>

theorem replaceFromField_quotes_flags:
  "fst (replaceFromField builder_abc \<lparr>Steps = []\<rparr> (plain_step ''app'')
          (willing (file_of [from_line ''ubuntu'', copy_line]) [] 0 [])
          (host_with (''FROM ubuntu'' @ [CHR 0x0A] @ ''COPY --from=0 a b''))) = None
   \<and> map_option content
        (files (snd (replaceFromField builder_abc \<lparr>Steps = []\<rparr> (plain_step ''app'')
                  (willing (file_of [from_line ''ubuntu'', copy_line]) [] 0 [])
                  (host_with (''FROM ubuntu'' @ [CHR 0x0A] @ ''COPY --from=0 a b''))))
           ''/w/Dockerfile.generated'')
      = Some (''from ubuntu'' @ [CHR 0x0A]
              @ ''copy ['' @ [CHR 0x22] @ ''--from=0'' @ [CHR 0x22] @ ''] a b'')
   \<and> calls (snd (BuildStep builder_abc \<lparr>Steps = []\<rparr> (plain_step ''app'')
                  (willing (file_of [from_line ''ubuntu'', copy_line]) [] 0 [])
                  (host_with (''FROM ubuntu'' @ [CHR 0x0A] @ ''COPY --from=0 a b''))))
      = [Open ''/w/Dockerfile'',
         WriteFile ''/w/Dockerfile.generated''
           (''from ubuntu'' @ [CHR 0x0A]
            @ ''copy ['' @ [CHR 0x22] @ ''--from=0'' @ [CHR 0x22] @ ''] a b''),
         BuildImage ''app-abc'' ''Dockerfile.generated'',
         Remove ''/w/Dockerfile.generated'']
   \<and> dumpDockerfile no_tables copy_line
      = ''copy ['' @ [CHR 0x22] @ ''--from=0'' @ [CHR 0x22] @ ''] a b''
   \<and> raw_instruction copy_line = ''copy --from=0 a b''"
  by (simp add: BuildStep_def replaceFromField_def buildImage_def withContainer_def
      needsContainer_def request_def os_Open_def ioutil_WriteFile_def os_Remove_def
      builder_abc_def plain_step_def willing_def host_with_def file_of_def from_line_def
      copy_line_def no_tables_def path_Join_def Clean_def filepath_Base_def ask_def made_def
      uniqueDockerfile_def uniqueStepName_def Contains_def ToLower_def lower_char_def
      is_ascii_def name_char_def truncated_def
      TrimSpace_def space_runes_def Sprintf_q_def Quote_def below_DEL_def quote_char_def
      raw_instruction_def FindStepByName_def Let_def)

section \<open>The extraction of an artifact\<close>

text \<open>What the file operations have done when they return no error.\<close>

lemma os_Create_None:
  "os_Create ev p w = (None, w') \<Longrightarrow>
   p \<notin> dirs w \<and> files w' = (files w)(p \<mapsto> truncated w p [] 0x1B6) \<and> dirs w' = dirs w"
  by (auto simp: os_Create_def Let_def made_def split: option.splits if_splits)

lemma io_Copy_None:
  "io_Copy ev p d w = (None, w') \<Longrightarrow> files w p = Some f \<Longrightarrow>
   files w' = (files w)(p \<mapsto> f\<lparr>content := content f @ d\<rparr>) \<and> dirs w' = dirs w"
  by (auto simp: io_Copy_def Let_def made_def split: option.splits if_splits)

lemma create_copy:
  assumes "os_Create ev p w = (None, w1)" and "io_Copy ev p d w1 = (None, w2)"
  shows "p \<notin> dirs w \<and> files w2 = (files w)(p \<mapsto> truncated w p d 0x1B6) \<and> dirs w2 = dirs w"
proof -
  from os_Create_None [OF assms(1)]
  have 1: "p \<notin> dirs w" "files w1 = (files w)(p \<mapsto> truncated w p [] 0x1B6)" "dirs w1 = dirs w"
    by simp_all
  from 1(2) have "files w1 p = Some (truncated w p [] 0x1B6)" by simp
  from io_Copy_None [OF assms(2) this] 1 show ?thesis
    by (auto simp: truncated_def split: option.splits)
qed

lemma truncated_upd:
  "files w2 = (files w)(p \<mapsto> truncated w p d pm) \<Longrightarrow> truncated w2 p d' pm = truncated w p d' pm"
  by (simp add: truncated_def split: option.splits)

lemma extractEntries_None:
  "extractEntries ev p es w = (None, w') \<Longrightarrow> \<forall>x\<in>set es. regular x \<Longrightarrow>
   files w' = written w p es \<and> dirs w' = dirs w \<and> (es \<noteq> [] \<longrightarrow> p \<notin> dirs w)"
proof (induction es arbitrary: w)
  case Nil
  then show ?case by (simp add: written_def)
next
  case (Cons x es)
  from Cons.prems(2) obtain d where x: "x = Header TypeReg d"
    by (cases x) (auto simp: regular_def)
  from Cons.prems(1) x obtain w1 w2 where
    c: "os_Create ev p w = (None, w1)" and cp: "io_Copy ev p d w1 = (None, w2)"
    and rest: "extractEntries ev p es w2 = (None, w')"
    by (auto split: prod.splits option.splits)
  from create_copy [OF c cp]
  have 2: "p \<notin> dirs w" "files w2 = (files w)(p \<mapsto> truncated w p d 0x1B6)" "dirs w2 = dirs w"
    by simp_all
  from Cons.IH [OF rest] Cons.prems(2)
  have 3: "files w' = written w2 p es" "dirs w' = dirs w2"
    by simp_all
  show ?case
    using 2 3 x by (auto simp: written_def entry_data_def truncated_upd)
qed

text \<open>An environment that refuses nothing, and the owner's bits in the mode of the file.\<close>

lemma unrefused_append: "unrefused ev tr0 \<Longrightarrow> unrefused ev (tr0 @ tr)"
  by (simp add: unrefused_def)

lemma unrefused_ask: "unrefused ev (calls w) \<Longrightarrow> err (ask ev c w) = None"
  unfolding unrefused_def ask_def by (metis append_Nil2)

lemma unrefused_made: "unrefused ev (calls w) \<Longrightarrow> unrefused ev (calls (made c w))"
  by (simp add: made_def unrefused_append)

lemma masked_bits_kept:
  fixes x m k s :: "32 word"
  assumes "m AND k = m"
  shows "((x OR m) AND k OR s) AND m = m"
proof (rule bit_eqI)
  fix n
  from assms have "bit (m AND k) n = bit m n" by simp
  then show "bit (((x OR m) AND k OR s) AND m) n = bit m n"
    by (auto simp: bit_and_iff bit_or_iff)
qed

lemma owner_bits: "syscallMode (x OR 0x1C0) AND 0x1C0 = 0x1C0"
proof -
  have "(0x1C0 :: 32 word) AND 0x1FF = 0x1C0" by simp
  from masked_bits_kept [OF this] show ?thesis
    unfolding syscallMode_def by (simp only: or.assoc)
qed

lemma extractEntries_unrefused:
  "unrefused ev (calls w) \<Longrightarrow> \<forall>x\<in>set es. regular x \<Longrightarrow> p \<notin> dirs w \<Longrightarrow>
   \<exists>w'. extractEntries ev p es w = (None, w') \<and> unrefused ev (calls w')"
proof (induction es arbitrary: w)
  case Nil
  then show ?case by simp
next
  case (Cons x es)
  from Cons.prems(2) obtain d where x: "x = Header TypeReg d"
    by (cases x) (auto simp: regular_def)
  let ?w1 = "(made (Create p) w)\<lparr>files := (files w)(p \<mapsto> truncated w p [] 0x1B6)\<rparr>"
  have c: "os_Create ev p w = (None, ?w1)"
    using Cons.prems(1,3) by (simp add: os_Create_def Let_def unrefused_ask)
  have q1: "unrefused ev (calls ?w1)"
    using Cons.prems(1) by (simp add: made_def unrefused_append)
  obtain w2 where cp: "io_Copy ev p d ?w1 = (None, w2)" and c2: "calls w2 = calls ?w1 @ [Copy p]"
    and d2: "dirs w2 = dirs w"
    using q1 by (simp add: io_Copy_def Let_def unrefused_ask made_def)
  have "unrefused ev (calls w2)"
    using q1 c2 by (simp add: unrefused_append)
  from Cons.IH [OF this] Cons.prems(2,3) d2
  obtain w' where "extractEntries ev p es w2 = (None, w')" "unrefused ev (calls w')"
    by auto
  with c cp x show ?case by simp
qed
lemma file_in_the_way_iff:
  "file_in_the_way w p \<longleftrightarrow> p \<in> dom (files w) \<or> (\<exists>q\<in>parents p. q \<in> dom (files w))"
  by (simp add: file_in_the_way_def parents_def list_ex_iff)

lemma file_in_the_way_upd:
  "p' \<noteq> p \<Longrightarrow> p' \<notin> parents p \<Longrightarrow>
   file_in_the_way (w'\<lparr>files := (files w)(p' \<mapsto> f)\<rparr>) p = file_in_the_way w p"
  by (auto simp: file_in_the_way_iff)

lemma os_MkdirAll_None:
  "os_MkdirAll ev p w = (None, w1) \<Longrightarrow>
   \<not> file_in_the_way w p \<and> files w1 = files w \<and> dirs w1 = insert p (parents p \<union> dirs w)
   \<and> calls w1 = calls w @ [MkdirAll p]"
  by (auto simp: os_MkdirAll_def Let_def made_def split: option.splits if_splits)

lemma os_Chmod_None:
  "os_Chmod ev p m w = (None, w') \<Longrightarrow>
   dirs w' = dirs w \<and>
   files w' = (case files w p of None \<Rightarrow> files w
               | Some f \<Rightarrow> (files w)(p \<mapsto> f\<lparr>perm := syscallMode m\<rparr>))
   \<and> (files w p = None \<longrightarrow> p \<in> dirs w)"
  by (auto simp: os_Chmod_def Let_def made_def split: option.splits if_splits)

text \<open>What a successful copyToHost has done.\<close>

lemma copyToHost_None:
  assumes "copyToHost b a container perms ev w = (None, w')"
    and "\<forall>x\<in>set (downloaded ev b a container w). regular x"
  shows "\<not> file_in_the_way w (destPath_of b a)"
    and "dirs w' = insert (destPath_of b a) (parents (destPath_of b a) \<union> dirs w)"
    and "downloaded ev b a container w \<noteq> [] \<Longrightarrow>
         destFile_of b a \<notin> dirs w' \<and>
         files w' = (files w)(destFile_of b a \<mapsto>
            \<lparr>content = entry_data (last (downloaded ev b a container w)),
             perm = syscallMode (artifactMode perms (Source a))\<rparr>)"
    and "downloaded ev b a container w = [] \<Longrightarrow>
         files w' = (case files w (destFile_of b a) of None \<Rightarrow> files w
               | Some f \<Rightarrow> (files w)(destFile_of b a \<mapsto> f\<lparr>perm := syscallMode (artifactMode perms (Source a))\<rparr>))
         \<and> (files w (destFile_of b a) = None \<longrightarrow> destFile_of b a \<in> dirs w')"
proof -
  let ?dp = "destPath_of b a" and ?df = "destFile_of b a"
  let ?c = "DownloadFromContainer container (Source a)"
  from assms(1) obtain w1 where mk: "os_MkdirAll ev ?dp w = (None, w1)"
    by (auto simp: copyToHost_def destPath_of_def Let_def split: prod.splits option.splits)
  from os_MkdirAll_None [OF mk]
  have 1: "\<not> file_in_the_way w ?dp" "files w1 = files w" "dirs w1 = insert ?dp (parents ?dp \<union> dirs w)"
    "calls w1 = calls w @ [MkdirAll ?dp]" by simp_all
  have arch: "archive (ask ev ?c w1) = downloaded ev b a container w"
    by (simp add: ask_def downloaded_def 1(4))
  from assms(1) mk arch obtain w3 where
    ex: "extractEntries ev ?df (downloaded ev b a container w) (made ?c w1) = (None, w3)"
    and ch: "os_Chmod ev ?df (artifactMode perms (Source a)) w3 = (None, w')"
    by (auto simp: copyToHost_def destPath_of_def destFile_of_def Let_def
        split: prod.splits option.splits)
  from extractEntries_None [OF ex assms(2)]
  have 3: "files w3 = written (made ?c w1) ?df (downloaded ev b a container w)"
    "dirs w3 = dirs w1" "downloaded ev b a container w \<noteq> [] \<longrightarrow> ?df \<notin> dirs w1"
    by (simp_all add: made_def)
  from os_Chmod_None [OF ch]
  have 4: "dirs w' = dirs w3"
    "files w' = (case files w3 ?df of None \<Rightarrow> files w3
               | Some f \<Rightarrow> (files w3)(?df \<mapsto> f\<lparr>perm := syscallMode (artifactMode perms (Source a))\<rparr>))"
    "files w3 ?df = None \<longrightarrow> ?df \<in> dirs w3"
    by simp_all
  show "\<not> file_in_the_way w ?dp" by (rule 1(1))
  show "dirs w' = insert ?dp (parents ?dp \<union> dirs w)"
    using 1 3 4 by simp
  show "destFile_of b a \<notin> dirs w' \<and>
         files w' = (files w)(destFile_of b a \<mapsto>
            \<lparr>content = entry_data (last (downloaded ev b a container w)),
             perm = syscallMode (artifactMode perms (Source a))\<rparr>)"
    if "downloaded ev b a container w \<noteq> []"
    using that 1 3 4 by (auto simp: written_def made_def truncated_def split: option.splits)
  show "files w' = (case files w (destFile_of b a) of None \<Rightarrow> files w
               | Some f \<Rightarrow> (files w)(destFile_of b a \<mapsto> f\<lparr>perm := syscallMode (artifactMode perms (Source a))\<rparr>))
         \<and> (files w (destFile_of b a) = None \<longrightarrow> destFile_of b a \<in> dirs w')"
    if "downloaded ev b a container w = []"
  proof -
    from that 1 3 have same: "files w3 = files w" "dirs w3 = dirs w'"
      using 4(1) by (simp_all add: written_def made_def)
    from 4(2,3) show ?thesis
      unfolding same by simp
  qed
qed

text \<open>
  copyToHost does return without error when the environment refuses nothing, no file is
  in the way of the artifact's directory and its file is not a directory.
\<close>

lemma copyToHost_unrefused:
  assumes q: "unrefused ev (calls w)"
    and reg: "\<forall>x\<in>set (downloaded ev b a container w). regular x"
    and dp: "\<not> file_in_the_way w (destPath_of b a)"
    and df: "if downloaded ev b a container w = []
             then files w (destFile_of b a) \<noteq> None
                  \<or> destFile_of b a \<in> insert (destPath_of b a) (parents (destPath_of b a) \<union> dirs w)
             else destFile_of b a \<notin> insert (destPath_of b a) (parents (destPath_of b a) \<union> dirs w)"
  shows "\<exists>w'. copyToHost b a container perms ev w = (None, w')"
proof -
  let ?dp = "destPath_of b a" and ?df = "destFile_of b a"
  let ?c = "DownloadFromContainer container (Source a)"
  let ?es = "downloaded ev b a container w"
  let ?w1 = "(made (MkdirAll ?dp) w)\<lparr>dirs := insert ?dp (parents ?dp \<union> dirs w)\<rparr>"
  let ?w2 = "made ?c ?w1"
  have mk: "os_MkdirAll ev ?dp w = (None, ?w1)"
    using q dp by (simp add: os_MkdirAll_def Let_def unrefused_ask)
  have q1: "unrefused ev (calls ?w1)"
    using q by (simp add: made_def unrefused_append)
  then have q2: "unrefused ev (calls ?w2)"
    by (rule unrefused_made)
  have ok: "err (ask ev ?c ?w1) = None"
    using q1 by (rule unrefused_ask)
  have arch: "archive (ask ev ?c ?w1) = ?es"
    by (simp add: ask_def downloaded_def made_def)
  have "\<exists>w3. extractEntries ev ?df ?es ?w2 = (None, w3) \<and> unrefused ev (calls w3)
      \<and> (files w3 ?df \<noteq> None \<or> ?df \<in> dirs w3)"
  proof (cases "?es = []")
    case True
    with df q2 show ?thesis by (auto simp: made_def)
  next
    case False
    with df have "?df \<notin> dirs ?w2" by (simp add: made_def)
    from extractEntries_unrefused [OF q2 reg this]
    obtain w3 where ex: "extractEntries ev ?df ?es ?w2 = (None, w3)" and q3: "unrefused ev (calls w3)"
      by blast
    from extractEntries_None [OF ex reg] False have "files w3 ?df \<noteq> None"
      by (simp add: written_def)
    with ex q3 show ?thesis by blast
  qed
  then obtain w3 where ex: "extractEntries ev ?df ?es ?w2 = (None, w3)"
    and q3: "unrefused ev (calls w3)" and there: "files w3 ?df \<noteq> None \<or> ?df \<in> dirs w3"
    by blast
  from q3 there have "\<exists>w'. os_Chmod ev ?df (artifactMode perms (Source a)) w3 = (None, w')"
    by (auto simp: os_Chmod_def Let_def unrefused_ask split: option.splits)
  with mk ok arch ex show ?thesis
    by (simp add: copyToHost_def destPath_of_def destFile_of_def Let_def)
qed


text \<open>The example: one regular entry with the bytes \<open>hello\<close>, recorded permission 644.\<close>

lemma copy_example:
  "copyToHost builder_abc artifact_bin ''c1'' [''/out/app.bin'' \<mapsto> 644] hello_env
     (host_with []) = (None, after_copy)"
  by (simp add: copyToHost_def os_MkdirAll_def os_Create_def io_Copy_def os_Chmod_def
      willing_def host_with_def artifact_bin_def builder_abc_def hello_env_def after_copy_def
      ask_def made_def path_Join_def Clean_def filepath_Base_def parents_def parent_dirs_def
      file_in_the_way_def truncated_def artifactMode_def lookup_perm_def syscallMode_def
      TypeReg_def Let_def)

lemma download_example:
  "downloaded hello_env builder_abc artifact_bin ''c1'' w = [Header TypeReg ''hello'']"
  by (simp add: downloaded_def hello_env_def willing_def)

text \<open>
  C6. When copyToHost returns without error for an artifact whose download consists of
  regular-file entries (at least one), the host has a file at the path joined from the
  working directory, the artifact's \<open>Dest\<close> and the base name of its \<open>Source\<close>; the
  content of that file is the content of the (last) entry; the directory of the file
  exists; and the permission bits of the file, which are those that \<open>os.Chmod\<close> sets from
  the recorded value, include the owner's read, write and execute bits whatever the
  recorded value is.
\<close>

theorem copyToHost_writes_file:
  assumes "copyToHost b a container perms ev w = (None, w')"
    and "downloaded ev b a container w = es" and "es \<noteq> []" and "\<forall>x\<in>set es. regular x"
  shows "map_option content (files w' (destFile_of b a)) = Some (entry_data (last es))
    \<and> map_option perm (files w' (destFile_of b a))
        = Some (syscallMode (artifactMode perms (Source a)))
    \<and> syscallMode (artifactMode perms (Source a)) AND 0x1C0 = 0x1C0
    \<and> destPath_of b a \<in> dirs w'"
  using copyToHost_None(2,3) [OF assms(1)] assms(2-4)
  by (simp add: artifactMode_def owner_bits)

theorem copyToHost_writes_file_witness:
  "fst (copyToHost builder_abc artifact_bin ''c1'' [''/out/app.bin'' \<mapsto> 644] hello_env
          (host_with [])) = None
   \<and> files after_copy ''/w/dist/app.bin'' = Some \<lparr>content = ''hello'', perm = 0x1C4\<rparr>
   \<and> (0x1C4 :: 32 word) AND 0x1C0 = 0x1C0
   \<and> ''/w/dist'' \<in> dirs after_copy"
proof -
  have entries: "[Header TypeReg ''hello''] \<noteq> []"
    "\<forall>x\<in>set [Header TypeReg ''hello'']. regular x"
    by (simp_all add: regular_def)
  have "destFile_of builder_abc artifact_bin = ''/w/dist/app.bin''"
    "destPath_of builder_abc artifact_bin = ''/w/dist''"
    by (simp_all add: destFile_of_def destPath_of_def builder_abc_def artifact_bin_def
        path_Join_def Clean_def filepath_Base_def)
  moreover have "files after_copy ''/w/dist/app.bin'' = Some \<lparr>content = ''hello'', perm = 0x1C4\<rparr>"
    by (simp add: after_copy_def)
  ultimately show ?thesis
    using copyToHost_writes_file [OF copy_example download_example entries] copy_example
    by (simp add: entry_data_def)
qed

text \<open>
  C7. After an extraction that has returned without error, a second extraction of the
  same artifact, with the same download (regular-file entries, at least one) and an
  environment that refuses none of its calls, returns without error too. After it there is
  a file at the artifact's path, with the content of the entry and the permission bits that
  \<open>os.Chmod\<close> sets; the files and the directories of the host are those that the first
  extraction left; and, compared with the host before the two extractions, the artifact's
  path is the only one at which a file has appeared.
\<close>

theorem copyToHost_again:
  assumes first: "copyToHost b a container perms ev w = (None, w1)"
    and es: "downloaded ev b a container w = es" "downloaded ev b a container w1 = es"
    and some: "es \<noteq> []"
    and reg: "\<forall>x\<in>set es. regular x"
    and q: "unrefused ev (calls w1)"
  shows "fst (copyToHost b a container perms ev w1) = None
    \<and> files (snd (copyToHost b a container perms ev w1)) (destFile_of b a)
        = Some \<lparr>content = entry_data (last es),
                perm = syscallMode (artifactMode perms (Source a))\<rparr>
    \<and> dom (files (snd (copyToHost b a container perms ev w1)))
        = insert (destFile_of b a) (dom (files w))
    \<and> files (snd (copyToHost b a container perms ev w1)) = files w1
    \<and> dirs (snd (copyToHost b a container perms ev w1)) = dirs w1"
proof -
  let ?dp = "destPath_of b a" and ?df = "destFile_of b a"
  let ?f = "\<lparr>content = entry_data (last es),
             perm = syscallMode (artifactMode perms (Source a))\<rparr>"
  from reg es have reg0: "\<forall>x\<in>set (downloaded ev b a container w). regular x"
    and reg1: "\<forall>x\<in>set (downloaded ev b a container w1). regular x" by simp_all
  note one = copyToHost_None [OF first reg0]
  have dirs1: "dirs w1 = insert ?dp (parents ?dp \<union> dirs w)" by (rule one(2))
  from one(3) es some have df: "?df \<notin> dirs w1" and files1: "files w1 = (files w)(?df \<mapsto> ?f)"
    by simp_all
  from df dirs1 have apart: "?df \<noteq> ?dp" "?df \<notin> parents ?dp" by auto
  have "file_in_the_way w1 ?dp = file_in_the_way w ?dp"
    using apart files1 by (auto simp: file_in_the_way_iff)
  with one(1) have dp1: "\<not> file_in_the_way w1 ?dp" by simp
  have df1: "if downloaded ev b a container w1 = []
             then files w1 ?df \<noteq> None \<or> ?df \<in> insert ?dp (parents ?dp \<union> dirs w1)
             else ?df \<notin> insert ?dp (parents ?dp \<union> dirs w1)"
    using es some df dirs1 by auto
  from copyToHost_unrefused [OF q reg1 dp1 df1]
  obtain w2 where second: "copyToHost b a container perms ev w1 = (None, w2)" by blast
  note two = copyToHost_None [OF second reg1]
  have "dirs w2 = dirs w1"
    using two(2) dirs1 by auto
  moreover from two(3) es some files1 have "files w2 = files w1" by simp
  ultimately show ?thesis
    using second files1 by simp
qed

theorem copyToHost_again_witness:
  "copyToHost builder_abc artifact_bin ''c1'' [''/out/app.bin'' \<mapsto> 644] hello_env
      (host_with []) = (None, after_copy)
   \<and> fst (copyToHost builder_abc artifact_bin ''c1'' [''/out/app.bin'' \<mapsto> 644] hello_env
          after_copy) = None
   \<and> files (snd (copyToHost builder_abc artifact_bin ''c1'' [''/out/app.bin'' \<mapsto> 644]
          hello_env after_copy)) ''/w/dist/app.bin''
      = Some \<lparr>content = ''hello'', perm = 0x1C4\<rparr>
   \<and> dom (files (snd (copyToHost builder_abc artifact_bin ''c1'' [''/out/app.bin'' \<mapsto> 644]
          hello_env after_copy)))
      = {''/w/dist/app.bin'', ''/w/Dockerfile''}"
proof -
  have entries: "[Header TypeReg ''hello''] \<noteq> []"
    "\<forall>x\<in>set [Header TypeReg ''hello'']. regular x"
    by (simp_all add: regular_def)
  have quiet: "unrefused hello_env (calls after_copy)"
    by (simp add: unrefused_def hello_env_def willing_def)
  have at_example: "destFile_of builder_abc artifact_bin = ''/w/dist/app.bin''"
    "entry_data (last [Header TypeReg ''hello'']) = ''hello''"
    "syscallMode (artifactMode [''/out/app.bin'' \<mapsto> 644] (Source artifact_bin)) = 0x1C4"
    "dom (files (host_with [])) = {''/w/Dockerfile''}"
    by (simp_all add: destFile_of_def destPath_of_def builder_abc_def path_Join_def Clean_def
        filepath_Base_def entry_data_def artifactMode_def lookup_perm_def syscallMode_def
        artifact_bin_def host_with_def)
  note again =
    copyToHost_again [OF copy_example download_example download_example entries quiet]
  from again have "fst (copyToHost builder_abc artifact_bin ''c1'' [''/out/app.bin'' \<mapsto> 644]
      hello_env after_copy) = None"
    by (rule conjunct1)
  moreover from again have "files (snd (copyToHost builder_abc artifact_bin ''c1''
      [''/out/app.bin'' \<mapsto> 644] hello_env after_copy)) ''/w/dist/app.bin''
      = Some \<lparr>content = ''hello'', perm = 0x1C4\<rparr>"
    unfolding at_example by (rule conjunct1 [OF conjunct2])
  moreover from again have "dom (files (snd (copyToHost builder_abc artifact_bin ''c1''
      [''/out/app.bin'' \<mapsto> 644] hello_env after_copy)))
      = {''/w/dist/app.bin'', ''/w/Dockerfile''}"
    unfolding at_example by (rule conjunct1 [OF conjunct2 [OF conjunct2]])
  ultimately show ?thesis
    using copy_example by (intro conjI)
qed

section \<open>The permissions of an artifact\<close>

lemma foldl_decimal_ge: "n \<le> foldl (\<lambda>n c. n * 10 + digit_val c) n s"
proof (induction s arbitrary: n)
  case Nil
  then show ?case by simp
next
  case (Cons c s)
  have "n \<le> n * 10 + digit_val c" by simp
  also have "\<dots> \<le> foldl (\<lambda>n c. n * 10 + digit_val c) (n * 10 + digit_val c) s"
    by (rule Cons.IH)
  finally show ?case by simp
qed

lemma ParseUint_from_digits:
  "\<forall>c\<in>set s. is_digit c \<Longrightarrow> foldl (\<lambda>n c. n * 10 + digit_val c) n s < 2 ^ 64 \<Longrightarrow>
   ParseUint_from n s = (foldl (\<lambda>n c. n * 10 + digit_val c) n s, None)"
proof (induction s arbitrary: n)
  case Nil
  then show ?case by simp
next
  case (Cons c s)
  have "n * 10 + digit_val c \<le> foldl (\<lambda>n c. n * 10 + digit_val c) (n * 10 + digit_val c) s"
    by (rule foldl_decimal_ge)
  with Cons.prems(2) have small: "n * 10 + digit_val c < 2 ^ 64" by simp
  from Cons.prems have "ParseUint_from (n * 10 + digit_val c) s =
      (foldl (\<lambda>n c. n * 10 + digit_val c) (n * 10 + digit_val c) s, None)"
    by (intro Cons.IH) simp_all
  with small Cons.prems(1) show ?case by simp
qed

text \<open>Atoi reads a string of digits in base 10, as long as the number fits.\<close>

lemma Atoi_digits:
  assumes "s \<noteq> []" and "\<forall>c\<in>set s. is_digit c" and "decimal s < 2 ^ 63"
  shows "Atoi s = (int (decimal s), None)"
proof -
  have "decimal s < 2 ^ 64" using assms(3) by simp
  then have pu: "ParseUint s = (decimal s, None)"
    using assms(1,2) by (simp add: ParseUint_def decimal_def ParseUint_from_digits)
  have "is_digit (hd s)" using assms(1,2) by (cases s) auto
  then have "hd s \<noteq> CHR ''-''" "hd s \<noteq> CHR ''+''"
    by (auto simp: is_digit_def)
  with pu assms show ?thesis
    by (simp add: Atoi_def)
qed

lemma Atoi_syntax: "snd (Atoi s) = Some ErrSyntax \<Longrightarrow> fst (Atoi s) = 0"
  by (auto simp: Atoi_def Let_def split: if_splits prod.splits)


lemma statArtifacts_step:
  "statArtifacts ev container (art # arts) permMap w = Inr (permMap', w') \<Longrightarrow>
   \<exists>w4. statArtifacts ev container arts
          (permMap(Source art \<mapsto> fst (Atoi (permsString (stat_output ev container art w)))))
          w4 = Inr (permMap', w')"
  by (auto simp: calling_def stat_output_def Let_def split: option.splits prod.splits)

lemma statArtifacts_keeps:
  "statArtifacts ev container arts permMap w = Inr (permMap', w') \<Longrightarrow>
   k \<notin> Source ` set arts \<Longrightarrow> permMap' k = permMap k"
proof (induction arts arbitrary: permMap w)
  case Nil
  then show ?case by simp
next
  case (Cons art arts)
  from statArtifacts_step [OF Cons.prems(1)] obtain w4 where
    "statArtifacts ev container arts
       (permMap(Source art \<mapsto> fst (Atoi (permsString (stat_output ev container art w)))))
       w4 = Inr (permMap', w')" by blast
  from Cons.IH [OF this] Cons.prems(2) show ?case by simp
qed

lemma statArtifacts_append:
  "statArtifacts ev container (xs @ ys) permMap w =
     (case statArtifacts ev container xs permMap w of
        Inl res \<Rightarrow> Inl res
      | Inr (permMap1, w1) \<Rightarrow> statArtifacts ev container ys permMap1 w1)"
  by (induction xs arbitrary: permMap w)
    (auto simp: calling_def Let_def split: option.splits prod.splits)

lemma statArtifacts_entry:
  assumes run: "statArtifacts ev container arts Map.empty w = Inr (permMap, w')"
    and i: "i < length arts"
    and later: "\<forall>j. i < j \<and> j < length arts \<longrightarrow> Source (arts ! j) \<noteq> Source (arts ! i)"
  shows "permMap (Source (arts ! i))
    = Some (fst (Atoi (permsString (stat_output_at ev container arts w i))))"
proof -
  let ?a = "arts ! i"
  have split: "arts = take i arts @ ?a # drop (Suc i) arts"
    using i by (simp add: id_take_nth_drop)
  with run have "(case statArtifacts ev container (take i arts) Map.empty w of
        Inl res \<Rightarrow> Inl res
      | Inr (permMap1, w1) \<Rightarrow> statArtifacts ev container (?a # drop (Suc i) arts) permMap1 w1)
      = Inr (permMap, w')"
    by (metis statArtifacts_append)
  then obtain pm1 w1 where before: "statArtifacts ev container (take i arts) Map.empty w = Inr (pm1, w1)"
    and rest: "statArtifacts ev container (?a # drop (Suc i) arts) pm1 w1 = Inr (permMap, w')"
    by (auto split: sum.splits prod.splits)
  from statArtifacts_step [OF rest] obtain w4 where after:
    "statArtifacts ev container (drop (Suc i) arts)
       (pm1(Source ?a \<mapsto> fst (Atoi (permsString (stat_output ev container ?a w1)))))
       w4 = Inr (permMap, w')" by blast
  have "Source ?a \<notin> Source ` set (drop (Suc i) arts)"
  proof
    assume "Source ?a \<in> Source ` set (drop (Suc i) arts)"
    then obtain k where "k < length (drop (Suc i) arts)" "Source (drop (Suc i) arts ! k) = Source ?a"
      by (auto simp: in_set_conv_nth)
    then have "Suc i + k < length arts" "Source (arts ! (Suc i + k)) = Source ?a"
      by simp_all
    with later show False by (metis less_add_Suc1 add_Suc)
  qed
  from statArtifacts_keeps [OF after this] before show ?thesis
    by (simp add: stat_output_at_def)
qed

text \<open>A file operation leaves every other path alone and only adds calls.\<close>

lemma extractEntries_elsewhere:
  "extractEntries ev p es w = (res, w') \<Longrightarrow>
   (p' \<noteq> p \<longrightarrow> files w' p' = files w p') \<and> set (calls w) \<subseteq> set (calls w')"
proof (induction es arbitrary: w)
  case Nil
  then show ?case by simp
next
  case (Cons x es)
  show ?case
  proof (cases x)
    case (ReadError e)
    with Cons.prems show ?thesis by simp
  next
    case (Header flag d)
    show ?thesis
    proof (cases "flag = TypeReg")
      case False
      with Cons.prems Header show ?thesis by simp
    next
      case True
      obtain r1 w1 where c: "os_Create ev p w = (r1, w1)" by (cases "os_Create ev p w")
      then have 1: "(p' \<noteq> p \<longrightarrow> files w1 p' = files w p') \<and> set (calls w) \<subseteq> set (calls w1)"
        by (auto simp: os_Create_def Let_def made_def split: option.splits if_splits)
      show ?thesis
      proof (cases r1)
        case (Some x)
        with Cons.prems Header True c 1 show ?thesis by simp
      next
        case None
        obtain r2 w2 where cp: "io_Copy ev p d w1 = (r2, w2)" by (cases "io_Copy ev p d w1")
        then have 2: "(p' \<noteq> p \<longrightarrow> files w2 p' = files w1 p') \<and> set (calls w1) \<subseteq> set (calls w2)"
          by (auto simp: io_Copy_def Let_def made_def split: option.splits if_splits)
        show ?thesis
        proof (cases r2)
          case (Some x)
          with Cons.prems Header True c None cp 1 2 show ?thesis by auto
        next
          case None' : None
          with Cons.prems Header True c None cp
          have "extractEntries ev p es w2 = (res, w')" by simp
          from Cons.IH [OF this] 1 2 show ?thesis by auto
        qed
      qed
    qed
  qed
qed

lemma copyToHost_elsewhere:
  assumes "copyToHost b a container perms ev w = (res, w')"
  shows "(p \<noteq> destFile_of b a \<longrightarrow> files w' p = files w p) \<and> set (calls w) \<subseteq> set (calls w')"
proof -
  let ?dp = "destPath_of b a" and ?df = "destFile_of b a"
  let ?c = "DownloadFromContainer container (Source a)"
  obtain r1 w1 where mk: "os_MkdirAll ev ?dp w = (r1, w1)" by (cases "os_MkdirAll ev ?dp w")
  then have 1: "files w1 = files w \<and> set (calls w) \<subseteq> set (calls w1)"
    by (auto simp: os_MkdirAll_def Let_def made_def split: option.splits if_splits)
  show ?thesis
  proof (cases r1)
    case (Some x)
    with assms mk 1 show ?thesis
      by (auto simp: copyToHost_def destPath_of_def Let_def)
  next
    case None
    show ?thesis
    proof (cases "err (ask ev ?c w1)")
      case (Some x)
      with assms mk None 1 show ?thesis
        by (auto simp: copyToHost_def destPath_of_def Let_def made_def)
    next
      case None' : None
      obtain r3 w3 where ex: "extractEntries ev ?df (archive (ask ev ?c w1)) (made ?c w1) = (r3, w3)"
        by (cases "extractEntries ev ?df (archive (ask ev ?c w1)) (made ?c w1)")
      from extractEntries_elsewhere [OF ex, of p]
      have 3: "(p \<noteq> ?df \<longrightarrow> files w3 p = files w1 p) \<and> set (calls w1) \<subseteq> set (calls w3)"
        by (auto simp: made_def)
      show ?thesis
      proof (cases r3)
        case (Some x)
        with assms mk None None' ex 1 3 show ?thesis
          by (auto simp: copyToHost_def destPath_of_def destFile_of_def Let_def)
      next
        case None'' : None
        with assms mk None None' ex
        have ch: "os_Chmod ev ?df (artifactMode perms (Source a)) w3 = (res, w')"
          by (simp add: copyToHost_def destPath_of_def destFile_of_def Let_def)
        then have "(p \<noteq> ?df \<longrightarrow> files w' p = files w3 p) \<and> set (calls w3) \<subseteq> set (calls w')"
          by (auto simp: os_Chmod_def Let_def made_def split: option.splits if_splits)
        with 1 3 show ?thesis by auto
      qed
    qed
  qed
qed

text \<open>
  When copyToHost returns without error, its last call was \<open>os.Chmod\<close> on the file of the
  artifact, with the recorded permission as a FileMode and octal 700 set; a file at that
  path has the permission bits that \<open>os.Chmod\<close> makes of this mode.
\<close>

lemma copyToHost_Chmod:
  assumes "copyToHost b a container perms ev w = (None, w')"
  shows "Chmod (destFile_of b a) (artifactMode perms (Source a)) \<in> set (calls w')"
    and "files w' (destFile_of b a) = Some f \<Longrightarrow>
         perm f = syscallMode (artifactMode perms (Source a))"
proof -
  let ?df = "destFile_of b a"
  from assms obtain w3 where ch: "os_Chmod ev ?df (artifactMode perms (Source a)) w3 = (None, w')"
    by (auto simp: copyToHost_def destPath_of_def destFile_of_def Let_def
        split: prod.splits option.splits)
  then show "Chmod ?df (artifactMode perms (Source a)) \<in> set (calls w')"
    by (auto simp: os_Chmod_def Let_def made_def split: option.splits if_splits)
  from ch show "perm f = syscallMode (artifactMode perms (Source a))"
    if "files w' ?df = Some f"
    using that by (auto simp: os_Chmod_def Let_def made_def split: option.splits if_splits)
qed

lemma copyArtifacts_elsewhere:
  "copyArtifacts b container permMap ev arts w = Inr w' \<Longrightarrow>
   (p \<notin> destFile_of b ` set arts \<longrightarrow> files w' p = files w p) \<and> set (calls w) \<subseteq> set (calls w')"
proof (induction arts arbitrary: w)
  case Nil
  then show ?case by simp
next
  case (Cons a arts)
  from Cons.prems obtain w1 where one: "copyToHost b a container permMap ev w = (None, w1)"
    and rest: "copyArtifacts b container permMap ev arts w1 = Inr w'"
    by (auto simp: orReturn_def split: prod.splits option.splits)
  from copyToHost_elsewhere [OF one, of p] Cons.IH [OF rest] show ?case by auto
qed

lemma copyArtifacts_mode:
  assumes "copyArtifacts b container permMap ev arts w = Inr w'"
    and "i < length arts"
    and "\<forall>j. i < j \<and> j < length arts \<longrightarrow> destFile_of b (arts ! j) \<noteq> destFile_of b (arts ! i)"
  shows "Chmod (destFile_of b (arts ! i)) (artifactMode permMap (Source (arts ! i)))
           \<in> set (calls w')"
    and "files w' (destFile_of b (arts ! i)) = Some f \<Longrightarrow>
         perm f = syscallMode (artifactMode permMap (Source (arts ! i)))"
  using assms
proof (induction arts arbitrary: w i)
  case Nil
  { case 1 then show ?case by simp }
  { case 2 then show ?case by simp }
next
  case (Cons a arts)
  {
    case 1
    from "1.prems"(1) obtain w1 where one: "copyToHost b a container permMap ev w = (None, w1)"
      and rest: "copyArtifacts b container permMap ev arts w1 = Inr w'"
      by (auto simp: orReturn_def split: prod.splits option.splits)
    show ?case
    proof (cases i)
      case 0
      from copyToHost_Chmod(1) [OF one] copyArtifacts_elsewhere [OF rest] 0 show ?thesis
        by auto
    next
      case (Suc k)
      with "1.prems" have "k < length arts"
        "\<forall>j. k < j \<and> j < length arts \<longrightarrow> destFile_of b (arts ! j) \<noteq> destFile_of b (arts ! k)"
        by auto
      from Cons.IH(1) [OF rest this] Suc show ?thesis by simp
    qed
  }
  {
    case 2
    from "2.prems"(2) obtain w1 where one: "copyToHost b a container permMap ev w = (None, w1)"
      and rest: "copyArtifacts b container permMap ev arts w1 = Inr w'"
      by (auto simp: orReturn_def split: prod.splits option.splits)
    show ?case
    proof (cases i)
      case 0
      have "destFile_of b a \<notin> destFile_of b ` set arts"
      proof
        assume "destFile_of b a \<in> destFile_of b ` set arts"
        then obtain k where "k < length arts" "destFile_of b (arts ! k) = destFile_of b a"
          by (auto simp: in_set_conv_nth)
        with "2.prems"(4) 0 show False by fastforce
      qed
      with copyArtifacts_elsewhere [OF rest, of "destFile_of b a"]
      have "files w' (destFile_of b a) = files w1 (destFile_of b a)" by simp
      with "2.prems"(1) 0 copyToHost_Chmod(2) [OF one] show ?thesis by simp
    next
      case (Suc k)
      with "2.prems" have "k < length arts"
        "\<forall>j. k < j \<and> j < length arts \<longrightarrow> destFile_of b (arts ! j) \<noteq> destFile_of b (arts ! k)"
        "files w' (destFile_of b (arts ! k)) = Some f"
        by auto
      from Cons.IH(2) [OF this(3) rest this(1,2)] Suc show ?thesis by simp
    qed
  }
qed

lemma fetchArtifacts_parts:
  assumes "fetchArtifacts b step container ev w = Inr w'" and "Artifacts step \<noteq> []"
  shows "\<exists>permMap w2. statArtifacts ev container (Artifacts step) Map.empty
             (made (StartContainer container) w) = Inr (permMap, w2)
           \<and> copyArtifacts b container permMap ev (Artifacts step)
                (made (StopContainer container) w2) = Inr w'"
  using assms
  by (auto simp: fetchArtifacts_def calling_def Let_def split: option.splits sum.splits)

lemmas fetch_run = fetchArtifacts_def calling_def orReturn_def
  copyToHost_def os_MkdirAll_def os_Create_def io_Copy_def os_Chmod_def
  stat_prints_def willing_def host_with_def artifact_bin_def artifact_cfg_def artifact_step_def
  plain_step_def builder_abc_def fetched_def
  ask_def made_def logError_def path_Join_def Clean_def filepath_Base_def parents_def
  parent_dirs_def file_in_the_way_def truncated_def artifactMode_def lookup_perm_def
  syscallMode_def permsString_def Remove_all_def Atoi_def ParseUint_def is_digit_def
  digit_val_def TypeReg_def Let_def

text \<open>
  The two artifacts of the example step, fetched when \<open>stat\<close> prints \<open>'644'\<close>, nothing
  at all, and twenty nines.
\<close>

lemma fetch_644:
  "fetchArtifacts builder_abc artifact_step ''c1''
     (stat_prints quoted_644) (host_with [])
   = Inr (fetched 0x3C4 0x1C4 [])"
  by (simp add: fetch_run quoted_644_def nines_def)

lemma fetch_nothing:
  "fetchArtifacts builder_abc artifact_step ''c1'' (stat_prints []) (host_with [])
   = Inr (fetched 0x1C0 0x1C0
            [PermissionsParseFailed ''/out/app.bin'', PermissionsParseFailed ''/out/app.cfg''])"
  by (simp add: fetch_run quoted_644_def nines_def)

lemma fetch_nines:
  "fetchArtifacts builder_abc artifact_step ''c1'' (stat_prints nines)
     (host_with [])
   = Inr (fetched 0xFFFFFFFF 0xFFF
            [PermissionsParseFailed ''/out/app.bin'', PermissionsParseFailed ''/out/app.cfg''])"
  by (simp add: fetch_run quoted_644_def nines_def)

text \<open>
  C10, as stated. When \<open>stat\<close> prints twenty nines, Atoi fails with a range error and
  returns the largest \<open>int\<close>: the failure is logged, yet the mode that goes to
  \<open>os.Chmod\<close> is not octal 700, it has all 32 bits set, and the file gets octal 7777.
  And when \<open>stat\<close> prints \<open>'644'\<close>, the permission bits of the file on the host are
  \<open>0x1C4\<close>, octal 704: not octal 1204 with 700 set, which is the mode given to
  \<open>os.Chmod\<close> (\<open>0x3C4\<close>), of which the file keeps the low nine bits.
\<close>

theorem stat_range_error_not_zero:
  "Atoi nines = (2 ^ 63 - 1, Some ErrRange)
   \<and> PermissionsParseFailed ''/out/app.bin''
       \<in> set (errlog (projr (fetchArtifacts builder_abc artifact_step ''c1''
                (stat_prints nines) (host_with []))))
   \<and> Chmod ''/w/dist/app.bin'' 0xFFFFFFFF
       \<in> set (calls (projr (fetchArtifacts builder_abc artifact_step ''c1''
                (stat_prints nines) (host_with []))))
   \<and> map_option perm
        (files (projr (fetchArtifacts builder_abc artifact_step ''c1''
                  (stat_prints nines) (host_with [])))
           ''/w/dist/app.bin'') = Some 0xFFF
   \<and> map_option perm
        (files (projr (fetchArtifacts builder_abc artifact_step ''c1''
                  (stat_prints quoted_644) (host_with [])))
           ''/w/dist/app.bin'') = Some 0x1C4"
  by (simp add: fetch_nines fetch_644)
    (simp add: fetched_def nines_def Atoi_def ParseUint_def is_digit_def digit_val_def)

text \<open>
  C10, amended. For an artifact of the step (the last one with its source and with its
  file on the host, if several have the same): the output of its \<open>stat\<close> session,
  without quotes and line feeds, goes through Atoi; what Atoi returns is the entry of the
  map at the artifact's source and, as a FileMode and with octal 700 set, the mode that
  goes to \<open>os.Chmod\<close> for the file of the artifact,
  and the file has the permission bits that \<open>os.Chmod\<close> makes of that mode (its low nine
  bits, and the set-uid, set-gid and sticky bits where the FileMode has them). A string of
  digits is read in base 10 (as long as the number is below \<open>2^63\<close>). When Atoi fails
  with a syntax error, it returns 0: the entry is 0, the mode that goes to
  \<open>os.Chmod\<close> is octal 700, and so are the bits of the file. Nothing is said of a range
  error.
\<close>

theorem fetchArtifacts_mode:
  assumes run: "fetchArtifacts b step container ev w = Inr w'"
    and i: "i < length (Artifacts step)"
    and later: "\<forall>j. i < j \<and> j < length (Artifacts step) \<longrightarrow>
        Source (Artifacts step ! j) \<noteq> Source (Artifacts step ! i)
        \<and> destFile_of b (Artifacts step ! j) \<noteq> destFile_of b (Artifacts step ! i)"
    and out: "permsString (stat_output_at ev container (Artifacts step)
        (made (StartContainer container) w) i) = s"
    and there: "files w' (destFile_of b (Artifacts step ! i)) = Some f"
  shows "(\<exists>permMap w2. statArtifacts ev container (Artifacts step) Map.empty
              (made (StartContainer container) w) = Inr (permMap, w2)
            \<and> permMap (Source (Artifacts step ! i)) = Some (fst (Atoi s)))
    \<and> Chmod (destFile_of b (Artifacts step ! i))
            ((word_of_int (fst (Atoi s)) :: 32 word) OR 0x1C0) \<in> set (calls w')
    \<and> perm f = syscallMode ((word_of_int (fst (Atoi s)) :: 32 word) OR 0x1C0)
    \<and> (s \<noteq> [] \<and> (\<forall>c\<in>set s. is_digit c) \<and> decimal s < 2 ^ 63 \<longrightarrow>
          Atoi s = (int (decimal s), None))
    \<and> (snd (Atoi s) = Some ErrSyntax \<longrightarrow>
          fst (Atoi s) = 0 \<and> perm f = 0x1C0
          \<and> Chmod (destFile_of b (Artifacts step ! i)) 0x1C0 \<in> set (calls w'))"
proof -
  let ?arts = "Artifacts step"
  from i have "?arts \<noteq> []" by auto
  from fetchArtifacts_parts [OF run this] obtain permMap w2 where
    stats: "statArtifacts ev container ?arts Map.empty (made (StartContainer container) w)
              = Inr (permMap, w2)"
    and copies: "copyArtifacts b container permMap ev ?arts (made (StopContainer container) w2)
              = Inr w'"
    by blast
  from later have src: "\<forall>j. i < j \<and> j < length ?arts \<longrightarrow> Source (?arts ! j) \<noteq> Source (?arts ! i)"
    and dst: "\<forall>j. i < j \<and> j < length ?arts \<longrightarrow>
        destFile_of b (?arts ! j) \<noteq> destFile_of b (?arts ! i)"
    by simp_all
  from statArtifacts_entry [OF stats i src] out
  have entry: "permMap (Source (?arts ! i)) = Some (fst (Atoi s))" by simp
  then have mode: "artifactMode permMap (Source (?arts ! i))
      = (word_of_int (fst (Atoi s)) :: 32 word) OR 0x1C0"
    by (simp add: artifactMode_def lookup_perm_def)
  from copyArtifacts_mode(1) [OF copies i dst] mode
  have called: "Chmod (destFile_of b (?arts ! i))
      ((word_of_int (fst (Atoi s)) :: 32 word) OR 0x1C0) \<in> set (calls w')" by simp
  from copyArtifacts_mode(2) [OF copies i dst there] mode
  have bits: "perm f = syscallMode ((word_of_int (fst (Atoi s)) :: 32 word) OR 0x1C0)" by simp
  have "snd (Atoi s) = Some ErrSyntax \<longrightarrow>
          fst (Atoi s) = 0 \<and> perm f = 0x1C0
          \<and> Chmod (destFile_of b (?arts ! i)) 0x1C0 \<in> set (calls w')"
  proof
    assume "snd (Atoi s) = Some ErrSyntax"
    then have "fst (Atoi s) = 0" by (rule Atoi_syntax)
    with called bits show "fst (Atoi s) = 0 \<and> perm f = 0x1C0
          \<and> Chmod (destFile_of b (?arts ! i)) 0x1C0 \<in> set (calls w')"
      by (simp add: syscallMode_def)
  qed
  moreover have "s \<noteq> [] \<and> (\<forall>c\<in>set s. is_digit c) \<and> decimal s < 2 ^ 63 \<longrightarrow>
          Atoi s = (int (decimal s), None)"
    by (simp add: Atoi_digits)
  moreover from stats entry
  have "\<exists>permMap w2. statArtifacts ev container ?arts Map.empty
              (made (StartContainer container) w) = Inr (permMap, w2)
            \<and> permMap (Source (?arts ! i)) = Some (fst (Atoi s))"
    by blast
  moreover note called bits
  ultimately show ?thesis by blast
qed


text \<open>
  The output \<open>'644'\<close> gives the mode \<open>0x3C4\<close> (octal 1704, not 744) to \<open>os.Chmod\<close>
  and the bits \<open>0x1C4\<close> (octal 704) to the file; no output at all gives octal 700 to
  both.
\<close>

theorem fetchArtifacts_mode_witness:
  "Atoi ''644'' = (644, None)
   \<and> Chmod ''/w/dist/app.bin'' 0x3C4
       \<in> set (calls (projr (fetchArtifacts builder_abc artifact_step ''c1''
                (stat_prints quoted_644) (host_with []))))
   \<and> map_option perm
        (files (projr (fetchArtifacts builder_abc artifact_step ''c1''
                  (stat_prints quoted_644) (host_with [])))
           ''/w/dist/app.bin'') = Some 0x1C4
   \<and> snd (Atoi []) = Some ErrSyntax
   \<and> Chmod ''/w/dist/app.bin'' 0x1C0
       \<in> set (calls (projr (fetchArtifacts builder_abc artifact_step ''c1''
                (stat_prints []) (host_with []))))
   \<and> map_option perm
        (files (projr (fetchArtifacts builder_abc artifact_step ''c1''
                  (stat_prints []) (host_with [])))
           ''/w/dist/app.bin'') = Some 0x1C0"
proof -
  let ?logs = "[PermissionsParseFailed ''/out/app.bin'',
                PermissionsParseFailed ''/out/app.cfg'']"
  have first: "(0::nat) < length (Artifacts artifact_step)"
    by (simp add: artifact_step_def)
  have later: "\<forall>j. 0 < j \<and> j < length (Artifacts artifact_step) \<longrightarrow>
        Source (Artifacts artifact_step ! j) \<noteq> Source (Artifacts artifact_step ! 0)
        \<and> destFile_of builder_abc (Artifacts artifact_step ! j)
            \<noteq> destFile_of builder_abc (Artifacts artifact_step ! 0)"
  proof (intro allI impI)
    fix j
    assume "0 < j \<and> j < length (Artifacts artifact_step)"
    then have "j = 1"
      by (simp add: artifact_step_def)
    then show "Source (Artifacts artifact_step ! j) \<noteq> Source (Artifacts artifact_step ! 0)
        \<and> destFile_of builder_abc (Artifacts artifact_step ! j)
            \<noteq> destFile_of builder_abc (Artifacts artifact_step ! 0)"
      by (simp add: artifact_step_def artifact_bin_def artifact_cfg_def
          destFile_of_def destPath_of_def builder_abc_def path_Join_def Clean_def
          filepath_Base_def)
  qed
  have path: "destFile_of builder_abc (Artifacts artifact_step ! 0) = ''/w/dist/app.bin''"
    by (simp add: artifact_step_def artifact_bin_def destFile_of_def destPath_of_def
        builder_abc_def path_Join_def Clean_def filepath_Base_def)
  have out1: "permsString (stat_output_at (stat_prints quoted_644) ''c1'' (Artifacts artifact_step)
      (made (StartContainer ''c1'') (host_with [])) 0) = ''644''"
    by (simp add: stat_output_at_def stat_output_def stat_prints_def willing_def ask_def
        permsString_def Remove_all_def quoted_644_def)
  have out2: "permsString (stat_output_at (stat_prints []) ''c1'' (Artifacts artifact_step)
      (made (StartContainer ''c1'') (host_with [])) 0) = []"
    by (simp add: stat_output_at_def stat_output_def stat_prints_def willing_def ask_def
        permsString_def Remove_all_def)
  have there1: "files (fetched 0x3C4 0x1C4 []) (destFile_of builder_abc (Artifacts artifact_step ! 0))
      = Some \<lparr>content = ''hello'', perm = 0x1C4\<rparr>"
    unfolding path by (simp add: fetched_def)
  have there2: "files (fetched 0x1C0 0x1C0 ?logs) (destFile_of builder_abc (Artifacts artifact_step ! 0))
      = Some \<lparr>content = ''hello'', perm = 0x1C0\<rparr>"
    unfolding path by (simp add: fetched_def)
  have digits: "''644'' \<noteq> [] \<and> (\<forall>c\<in>set ''644''. is_digit c) \<and> decimal ''644'' < 2 ^ 63"
    "decimal ''644'' = 644"
    by (simp_all add: is_digit_def decimal_def digit_val_def)
  have failure: "snd (Atoi []) = Some ErrSyntax"
    by (simp add: Atoi_def)
  from fetchArtifacts_mode [OF fetch_644 first later out1 there1] digits
  have "Atoi ''644'' = (644, None)
      \<and> Chmod ''/w/dist/app.bin'' 0x3C4 \<in> set (calls (fetched 0x3C4 0x1C4 []))"
    unfolding path by auto
  moreover from fetchArtifacts_mode [OF fetch_nothing first later out2 there2] failure
  have "Chmod ''/w/dist/app.bin'' 0x1C0 \<in> set (calls (fetched 0x1C0 0x1C0 ?logs))"
    unfolding path by auto
  moreover have "map_option perm (files (fetched 0x3C4 0x1C4 []) ''/w/dist/app.bin'') = Some 0x1C4"
    "map_option perm (files (fetched 0x1C0 0x1C0 ?logs) ''/w/dist/app.bin'') = Some 0x1C0"
    using there1 there2 unfolding path by simp_all
  ultimately show ?thesis
    using failure by (simp add: fetch_644 fetch_nothing)
qed

section \<open>The step as a whole\<close>

lemmas example_run = BuildStep_def replaceFromField_def buildImage_def withContainer_def
  untilCommand_def needsContainer_def createContainer_def cleanupAndSquash_def
  fetchArtifacts_def runCommand_def calling_def request_def
  os_Open_def ioutil_WriteFile_def os_Remove_def
  willing_def host_with_def builder_abc_def exits_with_def test_step_def plain_step_def
  file_of_def from_line_def
  ask_def made_def logError_def path_Join_def Clean_def filepath_Base_def truncated_def
  uniqueDockerfile_def uniqueStepName_def Contains_def ToLower_def lower_char_def
  FindStepByName_def TrimSpace_def space_runes_def is_ascii_def no_tables_def name_char_def
  Let_def

text \<open>
  The step \<open>app\<close> with the command \<open>make test\<close>, built from \<open>FROM ubuntu\<close> with every
  call answered without error. When the command exits with 0, the container is stopped and
  removed and the generated file is deleted. When it exits with 1, BuildStep returns
  \<open>nil\<close> right after InspectExec.
\<close>

lemma BuildStep_exit_0:
  "BuildStep builder_abc \<lparr>Steps = [test_step]\<rparr> test_step (exits_with 0)
     (host_with ''FROM ubuntu'')
   = (None,
      \<lparr>files = [''/w/Dockerfile'' \<mapsto> \<lparr>content = ''FROM ubuntu'', perm = 0x1A4\<rparr>],
       dirs = {''/w''},
       calls = [Open ''/w/Dockerfile'', WriteFile ''/w/Dockerfile.generated'' ''from ubuntu'',
         BuildImage ''app-abc'' ''Dockerfile.generated'', Uniuri,
         CreateContainer ''app-abc.c1'' ''app-abc'', StartContainer ''c1'',
         CreateExec ''c1'' [''make'', ''test''] True, StartExec ''c1'', InspectExec ''c1'',
         StopContainer ''c1'', RemoveContainer ''c1'' True True,
         Remove ''/w/Dockerfile.generated''],
       errlog = []\<rparr>)"
  by (simp add: example_run fun_upd_twist)

lemma BuildStep_exit_1:
  "BuildStep builder_abc \<lparr>Steps = [test_step]\<rparr> test_step (exits_with 1)
     (host_with ''FROM ubuntu'')
   = (None,
      \<lparr>files = [''/w/Dockerfile'' \<mapsto> \<lparr>content = ''FROM ubuntu'', perm = 0x1A4\<rparr>,
         ''/w/Dockerfile.generated'' \<mapsto> \<lparr>content = ''from ubuntu'', perm = 0x1A4\<rparr>],
       dirs = {''/w''},
       calls = [Open ''/w/Dockerfile'', WriteFile ''/w/Dockerfile.generated'' ''from ubuntu'',
         BuildImage ''app-abc'' ''Dockerfile.generated'', Uniuri,
         CreateContainer ''app-abc.c1'' ''app-abc'', StartContainer ''c1'',
         CreateExec ''c1'' [''make'', ''test''] True, StartExec ''c1'', InspectExec ''c1''],
       errlog = [CommandExitCode 1]\<rparr>)"
  by (simp add: example_run)

text \<open>
  C2. The step \<open>app\<close> with the command \<open>make test\<close>, which exits with 1, every call
  answered without error: BuildStep returns no error, the container \<open>c1\<close> has been
  created, and the calls end with InspectExec; the container is neither stopped nor
  removed.
\<close>

theorem BuildStep_leaves_container:
  "fst (BuildStep builder_abc \<lparr>Steps = [test_step]\<rparr> test_step (exits_with 1)
          (host_with ''FROM ubuntu'')) = None
   \<and> calls (snd (BuildStep builder_abc \<lparr>Steps = [test_step]\<rparr> test_step (exits_with 1)
          (host_with ''FROM ubuntu'')))
      = [Open ''/w/Dockerfile'', WriteFile ''/w/Dockerfile.generated'' ''from ubuntu'',
         BuildImage ''app-abc'' ''Dockerfile.generated'', Uniuri,
         CreateContainer ''app-abc.c1'' ''app-abc'', StartContainer ''c1'',
         CreateExec ''c1'' [''make'', ''test''] True, StartExec ''c1'', InspectExec ''c1'']
   \<and> RemoveContainer ''c1'' True True
        \<notin> set (calls (snd (BuildStep builder_abc \<lparr>Steps = [test_step]\<rparr> test_step
               (exits_with 1) (host_with ''FROM ubuntu''))))"
  by (simp add: BuildStep_exit_1)

text \<open>
  C4. The same step and exit code: BuildStep returns no error, and the generated build
  file \<open>/w/Dockerfile.generated\<close> is still on the host.
\<close>

theorem BuildStep_leaves_generated_file:
  "fst (BuildStep builder_abc \<lparr>Steps = [test_step]\<rparr> test_step (exits_with 1)
          (host_with ''FROM ubuntu'')) = None
   \<and> uniqueDockerfile builder_abc test_step = ''/w/Dockerfile.generated''
   \<and> files (snd (BuildStep builder_abc \<lparr>Steps = [test_step]\<rparr> test_step (exits_with 1)
          (host_with ''FROM ubuntu''))) ''/w/Dockerfile.generated''
      = Some \<lparr>content = ''from ubuntu'', perm = 0x1A4\<rparr>"
  by (simp add: BuildStep_exit_1)
    (simp add: uniqueDockerfile_def builder_abc_def test_step_def plain_step_def path_Join_def
      Clean_def)

lemma runCommand_nonzero_exit:
  assumes "Command step \<noteq> []"
    and "err (respond ev (calls w) (StartContainer container)) = None"
    and "err (respond ev (calls w @ [StartContainer container])
               (CreateExec container (Split (Command step) CHR '' '') True)) = None"
    and "err (inspected ev step container w) = None"
    and "exit_code (inspected ev step container w) \<noteq> 0"
  shows "\<exists>w'. runCommand step container ev w = Inl (None, w') \<and> errlog w' \<noteq> []
    \<and> last (errlog w') = CommandExitCode (exit_code (inspected ev step container w))"
  using assms
  by (simp add: runCommand_def calling_def ask_def made_def logError_def inspected_def
      session_of_def Let_def split: option.splits)

text \<open>
  C5. A step with an ad hoc command, for which BuildStep has come as far as the command
  without returning (the build file rewritten, the image built, the container created,
  the cleanup and the artifacts done): when the container starts, the exec session is
  created and its inspection succeeds with an exit code other than 0, BuildStep returns
  no error, and the last thing it has logged at error level is that exit code. Whether
  StartExec itself fails does not matter.
\<close>

theorem nonzero_exit:
  assumes "Command step \<noteq> []"
    and "replaceFromField b m step ev w = (None, w1)"
    and "buildImage b step ev w1 = (None, w2)"
    and "untilCommand b step ev w2 = Inr (container, w3)"
    and "err (respond ev (calls w3) (StartContainer container)) = None"
    and "err (respond ev (calls w3 @ [StartContainer container])
               (CreateExec container (Split (Command step) CHR '' '') True)) = None"
    and "err (inspected ev step container w3) = None"
    and "exit_code (inspected ev step container w3) \<noteq> 0"
  shows "fst (BuildStep b m step ev w) = None
    \<and> errlog (snd (BuildStep b m step ev w)) \<noteq> []
    \<and> last (errlog (snd (BuildStep b m step ev w)))
        = CommandExitCode (exit_code (inspected ev step container w3))"
proof -
  from runCommand_nonzero_exit [OF assms(1) assms(5-8)]
  obtain w' where "runCommand step container ev w3 = Inl (None, w')" "errlog w' \<noteq> []"
    "last (errlog w') = CommandExitCode (exit_code (inspected ev step container w3))"
    by blast
  with assms(1-4) show ?thesis
    by (simp add: BuildStep_def withContainer_def needsContainer_def)
qed

theorem nonzero_exit_witness:
  "Command test_step \<noteq> []
   \<and> exit_code (inspected (exits_with 1) test_step ''c1''
        (snd (projr (untilCommand builder_abc test_step (exits_with 1)
           (snd (buildImage builder_abc test_step (exits_with 1)
              (snd (replaceFromField builder_abc \<lparr>Steps = [test_step]\<rparr> test_step
                 (exits_with 1) (host_with ''FROM ubuntu'')))))))))
      = 1
   \<and> fst (BuildStep builder_abc \<lparr>Steps = [test_step]\<rparr> test_step (exits_with 1)
          (host_with ''FROM ubuntu'')) = None
   \<and> last (errlog (snd (BuildStep builder_abc \<lparr>Steps = [test_step]\<rparr> test_step
          (exits_with 1) (host_with ''FROM ubuntu'')))) = CommandExitCode 1"
proof -
  let ?b = builder_abc and ?m = "\<lparr>Steps = [test_step]\<rparr>" and ?ev = "exits_with 1"
  let ?w = "host_with ''FROM ubuntu''"
  let ?w1 = "snd (replaceFromField ?b ?m test_step ?ev ?w)"
  let ?w2 = "snd (buildImage ?b test_step ?ev ?w1)"
  let ?w3 = "snd (projr (untilCommand ?b test_step ?ev ?w2))"
  have command: "Command test_step \<noteq> []"
    by (simp add: test_step_def)
  have rewritten: "replaceFromField ?b ?m test_step ?ev ?w = (None, ?w1)"
    by (simp add: example_run)
  have built: "buildImage ?b test_step ?ev ?w1 = (None, ?w2)"
    by (simp add: example_run)
  have created: "untilCommand ?b test_step ?ev ?w2 = Inr (''c1'', ?w3)"
    by (simp add: example_run)
  have started: "err (respond ?ev (calls ?w3) (StartContainer ''c1'')) = None"
    and session: "err (respond ?ev (calls ?w3 @ [StartContainer ''c1''])
               (CreateExec ''c1'' (Split (Command test_step) CHR '' '') True)) = None"
    and inspection: "err (inspected ?ev test_step ''c1'' ?w3) = None"
    and code: "exit_code (inspected ?ev test_step ''c1'' ?w3) = 1"
    by (simp_all add: exits_with_def willing_def inspected_def)
  from code have nonzero: "exit_code (inspected ?ev test_step ''c1'' ?w3) \<noteq> 0"
    by simp
  from nonzero_exit [OF command rewritten built created started session inspection nonzero]
    command code
  show ?thesis by simp
qed

section \<open>The returns of BuildStep without error\<close>

text \<open>
  No part of BuildStep before the ad hoc command makes it return \<open>nil\<close>: each of their
  returns carries the error of a call that failed.
\<close>

lemma calling_nil: "calling ev c w k = Inl (None, w') \<Longrightarrow> \<exists>rep w1. k rep w1 = Inl (None, w')"
  by (auto simp: calling_def Let_def split: option.splits)

lemma orReturn_nil: "orReturn res k = Inl (None, w') \<Longrightarrow> \<exists>w1. k w1 = Inl (None, w')"
  by (auto simp: orReturn_def split: prod.splits option.splits)

lemma tempFile_nil: "tempFile ev w k = Inl (None, w') \<Longrightarrow> \<exists>name w1. k name w1 = Inl (None, w')"
  by (auto simp: tempFile_def split: prod.splits sum.splits)

lemma runCleanup_error: "runCleanup ev container cmds w \<noteq> Inl (None, w')"
proof (induction cmds arbitrary: w)
  case Nil
  then show ?case by simp
next
  case (Cons cmd cmds)
  show ?case
  proof
    assume "runCleanup ev container (cmd # cmds) w = Inl (None, w')"
    then obtain w3 where "runCleanup ev container cmds w3 = Inl (None, w')"
      by (auto simp: Let_def dest!: calling_nil)
    with Cons.IH show False by blast
  qed
qed

lemma cleanupAndSquash_error: "cleanupAndSquash b step container ev w \<noteq> Inl (None, w')"
proof
  assume "cleanupAndSquash b step container ev w = Inl (None, w')"
  then show False
    unfolding cleanupAndSquash_def
    by (auto simp: runCleanup_error dest!: calling_nil orReturn_nil tempFile_nil
        split: if_splits sum.splits prod.splits)
qed

lemma statArtifacts_error: "statArtifacts ev container arts permMap w \<noteq> Inl (None, w')"
proof (induction arts arbitrary: permMap w)
  case Nil
  then show ?case by simp
next
  case (Cons art arts)
  show ?case
  proof
    assume "statArtifacts ev container (art # arts) permMap w = Inl (None, w')"
    then obtain pm w4 where "statArtifacts ev container arts pm w4 = Inl (None, w')"
      by (auto simp: Let_def dest!: calling_nil split: prod.splits)
    with Cons.IH show False by blast
  qed
qed

lemma copyArtifacts_error: "copyArtifacts b container permMap ev arts w \<noteq> Inl (None, w')"
proof (induction arts arbitrary: w)
  case Nil
  then show ?case by simp
next
  case (Cons art arts)
  show ?case
  proof
    assume "copyArtifacts b container permMap ev (art # arts) w = Inl (None, w')"
    then obtain w1 where "copyArtifacts b container permMap ev arts w1 = Inl (None, w')"
      by (auto dest!: orReturn_nil)
    with Cons.IH show False by blast
  qed
qed

lemma fetchArtifacts_error: "fetchArtifacts b step container ev w \<noteq> Inl (None, w')"
proof
  assume "fetchArtifacts b step container ev w = Inl (None, w')"
  then show False
    unfolding fetchArtifacts_def
    by (auto simp: statArtifacts_error copyArtifacts_error dest!: calling_nil
        split: if_splits sum.splits prod.splits)
qed

lemma untilCommand_error: "untilCommand b step ev w \<noteq> Inl (None, w')"
  by (auto simp: untilCommand_def cleanupAndSquash_error fetchArtifacts_error
      split: prod.splits sum.splits)

lemma runCommand_nil:
  "runCommand step container ev w = Inl (None, w') \<Longrightarrow>
   errlog w' \<noteq> [] \<and> (\<exists>n. n \<noteq> 0 \<and> last (errlog w') = CommandExitCode n)"
  by (auto simp: runCommand_def calling_def logError_def Let_def split: if_splits option.splits)

lemma os_Remove_None: "os_Remove ev p w = (None, w') \<Longrightarrow> files w' p = None \<and> calls w' = calls w @ [Remove p]"
  by (auto simp: os_Remove_def Let_def made_def split: option.splits if_splits)

lemma withContainer_end:
  "withContainer b step ev w = Inr w' \<Longrightarrow> needsContainer step \<Longrightarrow>
   \<exists>container. RemoveContainer container True True \<in> set (calls w')"
  by (fastforce simp: withContainer_def calling_def made_def Let_def
      split: sum.splits option.splits)

lemma withContainer_nil:
  "withContainer b step ev w = Inl (None, w') \<Longrightarrow>
   errlog w' \<noteq> [] \<and> (\<exists>n. n \<noteq> 0 \<and> last (errlog w') = CommandExitCode n)"
  by (auto simp: withContainer_def untilCommand_error dest!: calling_nil runCommand_nil
      split: if_splits sum.splits)

text \<open>
  So when BuildStep returns \<open>nil\<close>, either it has come to its end, where the generated
  file is deleted and, if there was a container, the container removed; or the last thing
  it has logged is a non-zero exit code of the ad hoc command.
\<close>

lemma BuildStep_nil:
  assumes "BuildStep b m step ev w = (None, w')"
  shows "(files w' (uniqueDockerfile b step) = None
          \<and> (needsContainer step \<longrightarrow>
               (\<exists>container. RemoveContainer container True True \<in> set (calls w'))))
       \<or> (errlog w' \<noteq> [] \<and> (\<exists>n. n \<noteq> 0 \<and> last (errlog w') = CommandExitCode n))"
proof -
  from assms obtain w2 where res:
    "(case withContainer b step ev w2 of Inl res \<Rightarrow> res
      | Inr w3 \<Rightarrow> os_Remove ev (uniqueDockerfile b step) w3) = (None, w')"
    by (auto simp: BuildStep_def split: prod.splits option.splits)
  then show ?thesis
  proof (cases "withContainer b step ev w2")
    case (Inl res)
    with res have "withContainer b step ev w2 = Inl (None, w')" by simp
    from withContainer_nil [OF this] show ?thesis by simp
  next
    case (Inr w3)
    with res have rm: "os_Remove ev (uniqueDockerfile b step) w3 = (None, w')"
      by simp
    from os_Remove_None [OF rm] withContainer_end [OF Inr] show ?thesis by auto
  qed
qed

end
